theory Spec2Isabelle
  imports Main "HOL-Library.Char_ord" "HOL-Library.List_Lexorder" "HOL-Library.Multiset"
    "HOL-Library.Sublist"
begin

section \<open>Python values, errors and the builtins the code relies on\<close>

text \<open>
  Every \<^verbatim>\<open>raise\<close> of the source, and every exception a builtin throws on the paths
  modelled here, is a value of \<open>error\<close>; a fallible function returns \<open>error + 'a\<close>
  with \<open>Inl\<close> for the exception.
\<close>

datatype error =
    RuntimeError | ValueError | KeyError | AttributeError | AssertionError
  | IndexError | OSError | TypeError | UnboundLocalError | IntegrityError | OperationalError

text \<open>
  The keyword arguments of the query methods are dynamically typed: \<^verbatim>\<open>None\<close>, one
  string, or a list/tuple of values.
\<close>

datatype pyval = PNone | PStr string | PSeq "pyval list"

text \<open>Python truthiness: \<^verbatim>\<open>None\<close>, the empty string and the empty sequence are false.\<close>

fun truthy :: "pyval \<Rightarrow> bool" where
  "truthy PNone = False"
| "truthy (PStr s) = (s \<noteq> [])"
| "truthy (PSeq xs) = (xs \<noteq> [])"

definition digit_char :: "nat \<Rightarrow> char" where
  "digit_char d = ''0123456789'' ! d"

definition digit_table :: "(char \<times> nat) list" where
  "digit_table = [(CHR ''0'', 0), (CHR ''1'', 1), (CHR ''2'', 2), (CHR ''3'', 3), (CHR ''4'', 4),
     (CHR ''5'', 5), (CHR ''6'', 6), (CHR ''7'', 7), (CHR ''8'', 8), (CHR ''9'', 9)]"

definition digit_of :: "char \<Rightarrow> nat option" where
  "digit_of c = map_of digit_table c"

text \<open>\<^verbatim>\<open>str(n)\<close> and \<^verbatim>\<open>"%d" % n\<close> on integers: decimal digits, a minus sign when negative.\<close>

fun str_nat :: "nat \<Rightarrow> string" where
  "str_nat n = (if n < 10 then [digit_char n] else str_nat (n div 10) @ [digit_char (n mod 10)])"

declare str_nat.simps [simp del]

definition str_int :: "int \<Rightarrow> string" where
  "str_int i = (if i < 0 then CHR ''-'' # str_nat (nat (- i)) else str_nat (nat i))"

text \<open>
  \<^verbatim>\<open>int(s)\<close> on a string without white space: an optional sign followed by at least one
  decimal digit; anything else raises \<^verbatim>\<open>ValueError\<close>. This is the \<^verbatim>\<open>int\<close> of
  \<^verbatim>\<open>query.py\<close>, which is Python 2.
\<close>

fun digits_val :: "string \<Rightarrow> nat \<Rightarrow> nat option" where
  "digits_val [] acc = Some acc"
| "digits_val (c # cs) acc =
     (case digit_of c of None \<Rightarrow> None | Some d \<Rightarrow> digits_val cs (10 * acc + d))"

definition py_int_digits :: "string \<Rightarrow> error + int" where
  "py_int_digits s =
     (if s = [] then Inl ValueError
      else case digits_val s 0 of None \<Rightarrow> Inl ValueError | Some n \<Rightarrow> Inr (int n))"

fun py_int :: "string \<Rightarrow> error + int" where
  "py_int [] = Inl ValueError"
| "py_int (c # cs) =
     (if c = CHR ''-'' then (case py_int_digits cs of Inl e \<Rightarrow> Inl e | Inr n \<Rightarrow> Inr (- n))
      else if c = CHR ''+'' then py_int_digits cs
      else py_int_digits (c # cs))"

text \<open>
  \<^verbatim>\<open>create.py\<close> is Python 3, whose \<^verbatim>\<open>int\<close> also takes single underscores between
  digits.
\<close>

fun ungroup :: "string \<Rightarrow> string option" where
  "ungroup [] = Some []"
| "ungroup [c] = (if c = CHR ''_'' then None else Some [c])"
| "ungroup (c # d # cs) =
     (if c = CHR ''_'' then None
      else if d = CHR ''_''
           then (case cs of
                   [] \<Rightarrow> None
                 | e # es \<Rightarrow> if e = CHR ''_'' then None else map_option ((#) c) (ungroup cs))
           else map_option ((#) c) (ungroup (d # cs)))"

definition py3_int_digits :: "string \<Rightarrow> error + int" where
  "py3_int_digits s = (case ungroup s of None \<Rightarrow> Inl ValueError | Some ds \<Rightarrow> py_int_digits ds)"

fun py3_int :: "string \<Rightarrow> error + int" where
  "py3_int [] = Inl ValueError"
| "py3_int (c # cs) =
     (if c = CHR ''-'' then (case py3_int_digits cs of Inl e \<Rightarrow> Inl e | Inr n \<Rightarrow> Inr (- n))
      else if c = CHR ''+'' then py3_int_digits cs
      else py3_int_digits (c # cs))"

text \<open>\<^verbatim>\<open>s.startswith(p)\<close>, \<^verbatim>\<open>s.endswith(p)\<close> and \<^verbatim>\<open>posixpath.join(a, b)\<close>.\<close>

definition startswith :: "string \<Rightarrow> string \<Rightarrow> bool" where
  "startswith s p = (take (length p) s = p)"

definition endswith :: "string \<Rightarrow> string \<Rightarrow> bool" where
  "endswith s p = (length p \<le> length s \<and> drop (length s - length p) s = p)"

definition os_path_join :: "string \<Rightarrow> string \<Rightarrow> string" where
  "os_path_join a b =
     (if startswith b ''/'' then b
      else if a = [] \<or> endswith a ''/'' then a @ b
      else a @ ''/'' @ b)"


section \<open>models.py: the rows of the tables\<close>

record Client =
  id :: string

text \<open>
  \<^verbatim>\<open>File.__init__(client_id, shot_id)\<close> is called with the shot number as an integer or
  as the string cut out of a file name; \<^verbatim>\<open>str(shot_id)\<close> is taken of either.
\<close>

datatype shot = Shot_int int | Shot_str string

fun str_shot :: "shot \<Rightarrow> string" where
  "str_shot (Shot_int i) = str_int i"
| "str_shot (Shot_str s) = s"

record File =
  id :: string
  client_id :: string
  path :: string
  shot_id :: shot

record People =
  id :: nat
  protocol :: string
  file_id :: string

record Pair =
  id :: nat
  protocol :: string
  enrol_file_id :: string
  probe_file_id :: string
  is_match :: bool

text \<open>
  Modelled from the spec: the class \<^verbatim>\<open>Annotation\<close> and its table are used by
  \<^verbatim>\<open>create.py\<close> but declared in no source file at hand; the specification names
  Annotation as the fifth table. A row holds the three values the constructor is called
  with: the file's identifier, the annotation type and the content of the annotation file.
\<close>

datatype Annotation = Annotation string string string

text \<open>
  \<^verbatim>\<open>"0"*(4-len(str(shot_id)))\<close>: a string times a non-positive number is empty, which the
  truncating subtraction on \<open>nat\<close> and \<open>replicate\<close> give as well.
\<close>

definition File_init :: "string \<Rightarrow> shot \<Rightarrow> File" where
  "File_init client_id' shot_id' =
     (let id' = client_id' @ ''_'' @ replicate (4 - length (str_shot shot_id')) CHR ''0''
                  @ str_shot shot_id'
      in \<lparr> File.id = id', client_id = client_id', path = os_path_join client_id' id',
           shot_id = shot_id' \<rparr>)"

definition make_path :: "File \<Rightarrow> string option \<Rightarrow> string option \<Rightarrow> string" where
  "make_path self directory extension =
     (let directory = (case directory of None \<Rightarrow> [] | Some d \<Rightarrow> d);
          extension = (case extension of None \<Rightarrow> [] | Some e \<Rightarrow> e)
      in os_path_join directory (File.path self @ extension))"

text \<open>
  The specification's wording of the identifier: the shot number ``left-padded with
  \<^verbatim>\<open>0\<close> characters to length 4''. One character is put in front for as long as the string
  is shorter than the width.
\<close>

function left_pad :: "nat \<Rightarrow> char \<Rightarrow> string \<Rightarrow> string" where
  "left_pad w c s = (if length s < w then left_pad w c (c # s) else s)"
  by pat_completeness auto
termination
  by (relation "measure (\<lambda>(w, c, s). w - length s)") auto

declare left_pad.simps [simp del]


section \<open>query.py: the fold rotation\<close>

definition m_valid_protocols :: "string list" where
  "m_valid_protocols = [''view1'', ''fold1'', ''fold2'', ''fold3'', ''fold4'', ''fold5'',
     ''fold6'', ''fold7'', ''fold8'', ''fold9'', ''fold10'']"

definition m_valid_groups :: "string list" where
  "m_valid_groups = [''world'', ''dev'', ''eval'']"

definition m_valid_purposes :: "string list" where
  "m_valid_purposes = [''enrol'', ''probe'']"

definition m_valid_classes :: "string list" where
  "m_valid_classes = [''matched'', ''unmatched'']"

definition m_subworld_counts :: "(string \<times> nat) list" where
  "m_subworld_counts = [(''onefolds'', 1), (''twofolds'', 2), (''threefolds'', 3),
     (''fourfolds'', 4), (''fivefolds'', 5), (''sixfolds'', 6), (''sevenfolds'', 7)]"

definition m_valid_types :: "string list" where
  "m_valid_types = [''restricted'', ''unrestricted'']"

text \<open>\<^verbatim>\<open>Database.__eval__\<close>: \<^verbatim>\<open>int(fold[4:])\<close>.\<close>

definition Database_eval :: "string \<Rightarrow> error + int" where
  "Database_eval fold' = py_int (drop 4 fold')"

text \<open>\<^verbatim>\<open>Database.__dev__\<close>; Python's \<^verbatim>\<open>%\<close> with a positive modulus is \<open>mod\<close> on \<open>int\<close>.\<close>

definition Database_dev :: "int \<Rightarrow> int \<times> int" where
  "Database_dev e = ((e + 7) mod 10 + 1, (e + 8) mod 10 + 1)"

definition fold_fmt :: "int \<Rightarrow> string" where
  "fold_fmt f = ''fold'' @ str_int f"

definition Database_dev_for :: "string \<Rightarrow> error + string list" where
  "Database_dev_for fold' =
     (case Database_eval fold' of Inl e \<Rightarrow> Inl e
      | Inr e \<Rightarrow> Inr (map fold_fmt [fst (Database_dev e), snd (Database_dev e)]))"

text \<open>
  \<^verbatim>\<open>Database.__world_for__\<close>. The sub-world reaches it as \<^verbatim>\<open>None\<close> or as a string; the
  dictionary lookup raises \<^verbatim>\<open>KeyError\<close> on a key it does not hold.
\<close>

definition Database_world_for :: "string \<Rightarrow> string option \<Rightarrow> error + string list" where
  "Database_world_for fold' subworld =
     (case Database_eval fold' of Inl e \<Rightarrow> Inl e
      | Inr e \<Rightarrow>
         (case (case subworld of None \<Rightarrow> None | Some s \<Rightarrow> map_of m_subworld_counts s) of
            None \<Rightarrow> Inl KeyError
          | Some world_count \<Rightarrow>
              Inr (map fold_fmt (map (\<lambda>i. (e + int i) mod 10 + 1) [0 ..< world_count]))))"

definition view2_folds :: "string list" where
  "view2_folds = [''fold1'', ''fold2'', ''fold3'', ''fold4'', ''fold5'',
     ''fold6'', ''fold7'', ''fold8'', ''fold9'', ''fold10'']"


section \<open>The relational store as the object-relational mapper presents it\<close>

text \<open>
  The content of the SQLite file: one list of rows per table, in the order of insertion.
  (\<open>pair\<close> and \<open>people\<close> have integer keys assigned on insertion; \<open>client\<close> and
  \<open>file\<close> have the string keys the constructors compute. The queries read the first
  four tables; \<open>annotation\<close> is written by the import.)
\<close>

record tables =
  client :: "Client list"
  "file" :: "File list"
  people :: "People list"
  pair :: "Pair list"
  annotation :: "Annotation list"

text \<open>
  A query object is a description of rows that is run against the tables only when it is
  iterated. \<^verbatim>\<open>filter\<close> narrows it. Joins are inner joins, evaluated as nested loops in
  the order the tables are named.
\<close>

type_synonym 'r query = "tables \<Rightarrow> 'r list"

definition filter_q :: "('r \<Rightarrow> bool) \<Rightarrow> 'r query \<Rightarrow> 'r query" where
  "filter_q P q = (\<lambda>t. filter P (q t))"

text \<open>
  Iterating a query that selects one mapped class returns each object once: the mapper
  drops later rows that carry an object (a primary key) it has already returned.
\<close>

fun unique_list :: "('e \<Rightarrow> 'k) \<Rightarrow> 'k list \<Rightarrow> 'e list \<Rightarrow> 'e list" where
  "unique_list key seen [] = []"
| "unique_list key seen (x # xs) =
     (if key x \<in> set seen then unique_list key seen xs
      else x # unique_list key (key x # seen) xs)"

text \<open>
  Running a \<^verbatim>\<open>SELECT\<close> on the session: the rows are read, the entity of each row is
  taken, duplicates are dropped; the tables of the session are handed back as they were.
\<close>

definition fetch :: "('r \<Rightarrow> 'e) \<Rightarrow> ('e \<Rightarrow> 'k) \<Rightarrow> 'r query \<Rightarrow> tables \<Rightarrow> 'e list \<times> tables" where
  "fetch entity key q session = (unique_list key [] (map entity (q session)), session)"

text \<open>
  \<^verbatim>\<open>for query in queries: for x in query: retval.append(x)\<close>, the session threaded
  through the successive statements.
\<close>

fun collect :: "('r \<Rightarrow> 'e) \<Rightarrow> ('e \<Rightarrow> 'k) \<Rightarrow> 'r query list \<Rightarrow> tables \<Rightarrow> 'e list \<times> tables" where
  "collect entity key [] session = ([], session)"
| "collect entity key (q # qs) session =
     (case fetch entity key q session of (r, session') \<Rightarrow>
        (case collect entity key qs session' of (rs, session'') \<Rightarrow> (r @ rs, session'')))"

text \<open>The column tests \<^verbatim>\<open>column == x\<close> and \<^verbatim>\<open>column.in_(xs)\<close>.\<close>

definition col_eq :: "'a \<Rightarrow> 'a \<Rightarrow> bool" where
  "col_eq x = (\<lambda>v. v = x)"

definition col_in :: "'a list \<Rightarrow> 'a \<Rightarrow> bool" where
  "col_in xs = (\<lambda>v. v \<in> set xs)"

text \<open>
  \<^verbatim>\<open>query(Client).join(File).join(People).filter(People.protocol ...).order_by(Client.id)\<close>:
  the joins follow the foreign keys \<^verbatim>\<open>file.client_id\<close> and \<^verbatim>\<open>people.file_id\<close>.
\<close>

definition query_Client_File_People :: "(string \<Rightarrow> bool) \<Rightarrow> Client query" where
  "query_Client_File_People prot t =
     sort_key Client.id
       [c. c \<leftarrow> client t, f \<leftarrow> file t, File.client_id f = Client.id c,
           pe \<leftarrow> people t, People.file_id pe = File.id f, prot (People.protocol pe)]"

text \<open>
  \<^verbatim>\<open>query(File).join((Pair, or_(File.id == Pair.enrol_file_id, File.id == Pair.probe_file_id)))\<close>
\<close>

definition query_File_Pair_either :: "(string \<Rightarrow> bool) \<Rightarrow> File query" where
  "query_File_Pair_either prot t =
     [f. f \<leftarrow> file t, p \<leftarrow> pair t,
         File.id f = Pair.enrol_file_id p \<or> File.id f = Pair.probe_file_id p,
         prot (Pair.protocol p)]"

text \<open>\<^verbatim>\<open>query(File).join((Pair, File.id == Pair.enrol_file_id))\<close>\<close>

definition query_File_Pair_enrol :: "(string \<Rightarrow> bool) \<Rightarrow> File query" where
  "query_File_Pair_enrol prot t =
     [f. f \<leftarrow> file t, p \<leftarrow> pair t, File.id f = Pair.enrol_file_id p, prot (Pair.protocol p)]"

text \<open>\<^verbatim>\<open>query(File).join(People)\<close>\<close>

definition query_File_People :: "(string \<Rightarrow> bool) \<Rightarrow> File query" where
  "query_File_People prot t =
     [f. f \<leftarrow> file t, pe \<leftarrow> people t, People.file_id pe = File.id f, prot (People.protocol pe)]"

text \<open>
  \<^verbatim>\<open>query(File).join((Pair, File.id == Pair.probe_file_id)).join((file_alias, ...))\<close>:
  each row is the probe file together with the aliased enrol file, on which the filter
  over the model identifiers acts.
\<close>

definition query_File_Pair_probe :: "(string \<Rightarrow> bool) \<Rightarrow> (File \<times> File) query" where
  "query_File_Pair_probe prot t =
     [(f, file_alias). f \<leftarrow> file t, p \<leftarrow> pair t, File.id f = Pair.probe_file_id p,
         file_alias \<leftarrow> file t, Pair.enrol_file_id p = File.id file_alias,
         prot (Pair.protocol p)]"

text \<open>\<^verbatim>\<open>default_query()\<close> of \<^verbatim>\<open>pairs\<close>, with the first filter on the protocol.\<close>

definition default_query :: "(string \<Rightarrow> bool) \<Rightarrow> Pair query" where
  "default_query prot t =
     [p. p \<leftarrow> pair t, File1 \<leftarrow> file t, File.id File1 = Pair.enrol_file_id p,
         File2 \<leftarrow> file t, File.id File2 = Pair.probe_file_id p, prot (Pair.protocol p)]"


section \<open>query.py: the Database object\<close>

record Database =
  m_session :: "tables option"

text \<open>
  \<^verbatim>\<open>connect\<close>: the argument is what is at \<^verbatim>\<open>SQLITE_FILE\<close>, \<open>None\<close> when
  \<^verbatim>\<open>os.path.exists\<close> is false. \<^verbatim>\<open>__init__\<close> connects.
\<close>

definition connect :: "tables option \<Rightarrow> Database \<Rightarrow> Database" where
  "connect sqlite_file self =
     (case sqlite_file of None \<Rightarrow> self\<lparr>m_session := None\<rparr>
      | Some t \<Rightarrow> self\<lparr>m_session := Some t\<rparr>)"

definition Database_init :: "tables option \<Rightarrow> Database" where
  "Database_init sqlite_file = connect sqlite_file \<lparr>m_session = None\<rparr>"

definition is_valid :: "Database \<Rightarrow> bool" where
  "is_valid self = (m_session self \<noteq> None)"

definition assert_validity :: "Database \<Rightarrow> error + tables" where
  "assert_validity self =
     (case m_session self of None \<Rightarrow> Inl RuntimeError | Some session \<Rightarrow> Inr session)"

text \<open>\<^verbatim>\<open>__check_single__\<close>; on success the checked string is handed on.\<close>

definition Database_check_single :: "pyval \<Rightarrow> string list \<Rightarrow> error + string" where
  "Database_check_single value' valid =
     (case value' of
        PStr s \<Rightarrow> if s \<in> set valid then Inr s else Inl ValueError
      | _ \<Rightarrow> Inl ValueError)"

text \<open>\<^verbatim>\<open>__check_validity__\<close>: the loop over the elements, then the three cases.\<close>

fun check_elements :: "pyval list \<Rightarrow> string list \<Rightarrow> bool" where
  "check_elements [] valid = True"
| "check_elements (k # ks) valid =
     (if k \<in> set (map PStr valid) then check_elements ks valid else False)"

function Database_check_validity :: "pyval \<Rightarrow> string list \<Rightarrow> error + pyval list" where
  "Database_check_validity list' valid =
     (if \<not> truthy list' then Inr (map PStr valid)
      else case list' of
        PStr s \<Rightarrow> Database_check_validity (PSeq [PStr s]) valid
      | PSeq xs \<Rightarrow> if check_elements xs valid then Inr xs else Inl RuntimeError
      | PNone \<Rightarrow> Inr (map PStr valid))"
  by pat_completeness auto
termination
  by (relation "measure (\<lambda>(l, v). case l of PStr s \<Rightarrow> 1 | _ \<Rightarrow> 0)") auto

declare Database_check_validity.simps [simp del]

text \<open>\<^verbatim>\<open>if subworld != None: self.__check_single__(subworld, ..., m_subworld_counts.keys())\<close>\<close>

definition check_subworld :: "pyval \<Rightarrow> error + string option" where
  "check_subworld subworld =
     (case subworld of
        PNone \<Rightarrow> Inr None
      | _ \<Rightarrow> (case Database_check_single subworld (map fst m_subworld_counts) of
                Inl e \<Rightarrow> Inl e | Inr s \<Rightarrow> Inr (Some s)))"

text \<open>
  The branch every query method has for the protocols of view 2: the world set, the
  development set and the evaluation fold, each only when its group is asked for. The
  arguments say which query to build for each.
\<close>

definition view2_queries ::
  "string \<Rightarrow> pyval list \<Rightarrow> string option \<Rightarrow> ((string \<Rightarrow> bool) \<Rightarrow> 'q list)
     \<Rightarrow> ((string \<Rightarrow> bool) \<Rightarrow> 'q list) \<Rightarrow> ((string \<Rightarrow> bool) \<Rightarrow> 'q list) \<Rightarrow> error + 'q list" where
  "view2_queries protocol' groups subworld world_q dev_q eval_q =
     (case (if PStr ''world'' \<in> set groups
            then (case Database_world_for protocol' subworld of
                    Inl e \<Rightarrow> Inl e | Inr trainset \<Rightarrow> Inr (world_q (col_in trainset)))
            else Inr []) of
        Inl e \<Rightarrow> Inl e
      | Inr qw \<Rightarrow>
         (case (if PStr ''dev'' \<in> set groups
                then (case Database_dev_for protocol' of
                        Inl e \<Rightarrow> Inl e | Inr devset \<Rightarrow> Inr (dev_q (col_in devset)))
                else Inr []) of
            Inl e \<Rightarrow> Inl e
          | Inr qd \<Rightarrow>
              Inr (qw @ qd @ (if PStr ''eval'' \<in> set groups then eval_q (col_eq protocol') else []))))"

definition view1_queries ::
  "pyval list \<Rightarrow> ((string \<Rightarrow> bool) \<Rightarrow> 'q list) \<Rightarrow> ((string \<Rightarrow> bool) \<Rightarrow> 'q list) \<Rightarrow> 'q list" where
  "view1_queries groups world_q dev_q =
     (if PStr ''world'' \<in> set groups then world_q (col_eq ''train'') else [])
     @ (if PStr ''dev'' \<in> set groups then dev_q (col_eq ''test'') else [])"

definition clients ::
  "Database \<Rightarrow> pyval \<Rightarrow> pyval \<Rightarrow> pyval \<Rightarrow> (error + Client list) \<times> Database" where
  "clients self protocol' groups subworld =
     (case assert_validity self of Inl e \<Rightarrow> (Inl e, self) | Inr session \<Rightarrow>
      case Database_check_single protocol' m_valid_protocols of
        Inl e \<Rightarrow> (Inl e, self) | Inr protocol' \<Rightarrow>
      case Database_check_validity groups m_valid_groups of
        Inl e \<Rightarrow> (Inl e, self) | Inr groups \<Rightarrow>
      case check_subworld subworld of Inl e \<Rightarrow> (Inl e, self) | Inr subworld \<Rightarrow>
      case (if protocol' = ''view1''
            then Inr (view1_queries groups (\<lambda>pr. [query_Client_File_People pr])
                        (\<lambda>pr. [query_Client_File_People pr]))
            else view2_queries protocol' groups subworld
                   (\<lambda>pr. [query_Client_File_People pr]) (\<lambda>pr. [query_Client_File_People pr])
                   (\<lambda>pr. [query_Client_File_People pr])) of
        Inl e \<Rightarrow> (Inl e, self)
      | Inr queries \<Rightarrow>
          (case collect (\<lambda>c. c) Client.id queries session of
             (retval, session') \<Rightarrow> (Inr retval, self\<lparr>m_session := Some session'\<rparr>)))"

definition models ::
  "Database \<Rightarrow> pyval \<Rightarrow> pyval \<Rightarrow> pyval \<Rightarrow> (error + File list) \<times> Database" where
  "models self protocol' groups subworld =
     (case assert_validity self of Inl e \<Rightarrow> (Inl e, self) | Inr session \<Rightarrow>
      case Database_check_single protocol' m_valid_protocols of
        Inl e \<Rightarrow> (Inl e, self) | Inr protocol' \<Rightarrow>
      case Database_check_validity groups m_valid_groups of
        Inl e \<Rightarrow> (Inl e, self) | Inr groups \<Rightarrow>
      case check_subworld subworld of Inl e \<Rightarrow> (Inl e, self) | Inr subworld \<Rightarrow>
      case (if protocol' = ''view1''
            then Inr (view1_queries groups (\<lambda>pr. [query_File_Pair_either pr])
                        (\<lambda>pr. [query_File_Pair_enrol pr]))
            else view2_queries protocol' groups subworld
                   (\<lambda>pr. [query_File_Pair_either pr]) (\<lambda>pr. [query_File_Pair_enrol pr])
                   (\<lambda>pr. [query_File_Pair_enrol pr])) of
        Inl e \<Rightarrow> (Inl e, self)
      | Inr queries \<Rightarrow>
          (case collect (\<lambda>f. f) File.id queries session of
             (retval, session') \<Rightarrow> (Inr retval, self\<lparr>m_session := Some session'\<rparr>)))"


text \<open>
  \<^verbatim>\<open>objects\<close> keeps two lists, \<^verbatim>\<open>queries\<close> and \<^verbatim>\<open>probe_queries\<close>; here one list
  is built in the order of the source, with \<open>Inl\<close> for an entry of the first and
  \<open>Inr\<close> for an entry of the second, and then taken apart.
\<close>

fun lefts :: "('a + 'b) list \<Rightarrow> 'a list" where
  "lefts [] = []"
| "lefts (Inl a # xs) = a # lefts xs"
| "lefts (Inr b # xs) = lefts xs"

fun rights :: "('a + 'b) list \<Rightarrow> 'b list" where
  "rights [] = []"
| "rights (Inl a # xs) = rights xs"
| "rights (Inr b # xs) = b # rights xs"

text \<open>
  \<^verbatim>\<open>if model_ids and len(model_ids): query = query.filter(column.in_(model_ids))\<close>,
  after a single string has been wrapped into a tuple.
\<close>

definition wrap_str :: "pyval \<Rightarrow> pyval" where
  "wrap_str model_ids = (case model_ids of PStr s \<Rightarrow> PSeq [PStr s] | _ \<Rightarrow> model_ids)"

definition filter_model_ids :: "pyval \<Rightarrow> ('r \<Rightarrow> string) \<Rightarrow> 'r query \<Rightarrow> 'r query" where
  "filter_model_ids model_ids column q =
     (if truthy model_ids
      then (case model_ids of
              PSeq xs \<Rightarrow> filter_q (\<lambda>r. PStr (column r) \<in> set xs) q
            | _ \<Rightarrow> q)
      else q)"

definition objects_world :: "string \<Rightarrow> (string \<Rightarrow> bool) \<Rightarrow> (File query + (File \<times> File) query) list" where
  "objects_world world_type pr =
     (if world_type = ''restricted'' then [Inl (query_File_Pair_either pr)]
      else [Inl (query_File_People pr)])"

definition objects_purposes :: "pyval list \<Rightarrow> (string \<Rightarrow> bool) \<Rightarrow> (File query + (File \<times> File) query) list" where
  "objects_purposes purposes pr =
     (if PStr ''enrol'' \<in> set purposes then [Inl (query_File_Pair_enrol pr)] else [])
     @ (if PStr ''probe'' \<in> set purposes then [Inr (query_File_Pair_probe pr)] else [])"

definition objects ::
  "Database \<Rightarrow> pyval \<Rightarrow> pyval \<Rightarrow> pyval \<Rightarrow> pyval \<Rightarrow> pyval \<Rightarrow> pyval
     \<Rightarrow> (error + File list) \<times> Database" where
  "objects self protocol' model_ids groups purposes subworld world_type =
     (case assert_validity self of Inl e \<Rightarrow> (Inl e, self) | Inr session \<Rightarrow>
      case Database_check_single protocol' m_valid_protocols of
        Inl e \<Rightarrow> (Inl e, self) | Inr protocol' \<Rightarrow>
      case Database_check_validity groups m_valid_groups of
        Inl e \<Rightarrow> (Inl e, self) | Inr groups \<Rightarrow>
      case Database_check_validity purposes m_valid_purposes of
        Inl e \<Rightarrow> (Inl e, self) | Inr purposes \<Rightarrow>
      case Database_check_single world_type m_valid_types of
        Inl e \<Rightarrow> (Inl e, self) | Inr world_type \<Rightarrow>
      case check_subworld subworld of Inl e \<Rightarrow> (Inl e, self) | Inr subworld \<Rightarrow>
      case (if protocol' = ''view1''
            then Inr (view1_queries groups (objects_world world_type) (objects_purposes purposes))
            else view2_queries protocol' groups subworld
                   (objects_world world_type) (objects_purposes purposes)
                   (objects_purposes purposes)) of
        Inl e \<Rightarrow> (Inl e, self)
      | Inr qs \<Rightarrow>
          (case collect (\<lambda>f. f) File.id
                  (map (filter_model_ids (wrap_str model_ids) File.id) (lefts qs)) session of
             (retval, session') \<Rightarrow>
               (case collect fst File.id
                       (map (filter_model_ids (wrap_str model_ids) (\<lambda>(f, file_alias). File.id file_alias))
                            (rights qs)) session' of
                  (probes, session'') \<Rightarrow>
                    (Inr (retval @ probes), self\<lparr>m_session := Some session''\<rparr>))))"

text \<open>The two filters on the class that \<^verbatim>\<open>pairs\<close> puts on every query before running it.\<close>

definition filter_classes :: "pyval list \<Rightarrow> Pair query \<Rightarrow> Pair query" where
  "filter_classes classes q =
     (let q = (if PStr ''matched'' \<notin> set classes
               then filter_q (\<lambda>p. Pair.is_match p = False) q else q)
      in if PStr ''unmatched'' \<notin> set classes
         then filter_q (\<lambda>p. Pair.is_match p = True) q else q)"

definition pairs ::
  "Database \<Rightarrow> pyval \<Rightarrow> pyval \<Rightarrow> pyval \<Rightarrow> pyval \<Rightarrow> (error + Pair list) \<times> Database" where
  "pairs self protocol' groups classes subworld =
     (case assert_validity self of Inl e \<Rightarrow> (Inl e, self) | Inr session \<Rightarrow>
      case Database_check_single protocol' m_valid_protocols of
        Inl e \<Rightarrow> (Inl e, self) | Inr protocol' \<Rightarrow>
      case Database_check_validity groups m_valid_groups of
        Inl e \<Rightarrow> (Inl e, self) | Inr groups \<Rightarrow>
      case Database_check_validity classes m_valid_classes of
        Inl e \<Rightarrow> (Inl e, self) | Inr classes \<Rightarrow>
      case check_subworld subworld of Inl e \<Rightarrow> (Inl e, self) | Inr subworld \<Rightarrow>
      case (if protocol' = ''view1''
            then Inr (view1_queries groups (\<lambda>pr. [default_query pr]) (\<lambda>pr. [default_query pr]))
            else view2_queries protocol' groups subworld
                   (\<lambda>pr. [default_query pr]) (\<lambda>pr. [default_query pr])
                   (\<lambda>pr. [default_query pr])) of
        Inl e \<Rightarrow> (Inl e, self)
      | Inr queries \<Rightarrow>
          (case collect (\<lambda>p. p) Pair.id (map (filter_classes classes) queries) session of
             (retval, session') \<Rightarrow> (Inr retval, self\<lparr>m_session := Some session'\<rparr>)))"

text \<open>\<^verbatim>\<open>q.count()\<close> counts rows; \<^verbatim>\<open>q.first()\<close> is the first row or \<^verbatim>\<open>None\<close>.\<close>

definition count_q :: "'r query \<Rightarrow> tables \<Rightarrow> nat \<times> tables" where
  "count_q q session = (length (q session), session)"

definition first_q :: "'r query \<Rightarrow> tables \<Rightarrow> 'r option \<times> tables" where
  "first_q q session = ((case q session of [] \<Rightarrow> None | r # _ \<Rightarrow> Some r), session)"

definition get_client_id_from_file_id :: "Database \<Rightarrow> string \<Rightarrow> (error + string) \<times> Database" where
  "get_client_id_from_file_id self file_id' =
     (case assert_validity self of Inl e \<Rightarrow> (Inl e, self) | Inr session \<Rightarrow>
      (let q = filter_q (\<lambda>f. File.id f = file_id') file in
       case count_q q session of (n, session') \<Rightarrow>
         if n \<noteq> 1 then (Inl AssertionError, self\<lparr>m_session := Some session'\<rparr>)
         else (case first_q q session' of
                 (None, session'') \<Rightarrow> (Inl AttributeError, self\<lparr>m_session := Some session''\<rparr>)
               | (Some f, session'') \<Rightarrow>
                   (Inr (File.client_id f), self\<lparr>m_session := Some session''\<rparr>))))"

definition get_client_id_from_model_id :: "Database \<Rightarrow> string \<Rightarrow> (error + string) \<times> Database" where
  "get_client_id_from_model_id self model_id = get_client_id_from_file_id self model_id"

text \<open>
  \<^verbatim>\<open>paths\<close> and \<^verbatim>\<open>reverse\<close> read \<^verbatim>\<open>self.session\<close> right after the validity check;
  the object only ever has the attribute \<^verbatim>\<open>m_session\<close>, so the attribute lookup raises.
\<close>

definition paths ::
  "Database \<Rightarrow> string list \<Rightarrow> string \<Rightarrow> string \<Rightarrow> (error + string list) \<times> Database" where
  "paths self file_ids prefix' suffix' =
     (case assert_validity self of Inl e \<Rightarrow> (Inl e, self)
      | Inr session \<Rightarrow> (Inl AttributeError, self))"

definition reverse :: "Database \<Rightarrow> string list \<Rightarrow> (error + string list) \<times> Database" where
  "reverse self paths' =
     (case assert_validity self of Inl e \<Rightarrow> (Inl e, self)
      | Inr session \<Rightarrow> (Inl AttributeError, self))"


section \<open>create.py: the file system it reads\<close>

text \<open>
  A path leads to a directory, with the names \<^verbatim>\<open>os.listdir\<close> gives in the order it
  gives them, or to a regular file with its content, or nowhere.
\<close>

datatype node = Directory "string list" | Regular string

type_synonym filesystem = "string \<Rightarrow> node option"

definition os_listdir :: "filesystem \<Rightarrow> string \<Rightarrow> error + string list" where
  "os_listdir fs p = (case fs p of Some (Directory names) \<Rightarrow> Inr names | _ \<Rightarrow> Inl OSError)"

definition os_path_exists :: "filesystem \<Rightarrow> string \<Rightarrow> bool" where
  "os_path_exists fs p = (fs p \<noteq> None)"

text \<open>
  \<^verbatim>\<open>open(p)\<close> in text mode: every line end (\<^verbatim>\<open>\r\n\<close>, \<^verbatim>\<open>\r\<close>, \<^verbatim>\<open>\n\<close>) is read
  as \<^verbatim>\<open>\n\<close>.
\<close>

fun universal_newlines :: "string \<Rightarrow> string" where
  "universal_newlines [] = []"
| "universal_newlines [c] = [if c = CHR 0x0D then CHR 0x0A else c]"
| "universal_newlines (c # d # cs) =
     (if c = CHR 0x0D
      then (if d = CHR 0x0A then CHR 0x0A # universal_newlines cs
            else CHR 0x0A # universal_newlines (d # cs))
      else c # universal_newlines (d # cs))"

definition open_read :: "filesystem \<Rightarrow> string \<Rightarrow> error + string" where
  "open_read fs p =
     (case fs p of Some (Regular content) \<Rightarrow> Inr (universal_newlines content) | _ \<Rightarrow> Inl OSError)"

text \<open>\<^verbatim>\<open>for line in pfile\<close>: the lines, each with its line end.\<close>

fun lines_acc :: "string \<Rightarrow> string \<Rightarrow> string list" where
  "lines_acc cur [] = (if cur = [] then [] else [cur])"
| "lines_acc cur (c # cs) =
     (if c = CHR 0x0A then (cur @ [c]) # lines_acc [] cs else lines_acc (cur @ [c]) cs)"

definition open_lines :: "filesystem \<Rightarrow> string \<Rightarrow> error + string list" where
  "open_lines fs p = (case open_read fs p of Inl e \<Rightarrow> Inl e | Inr text \<Rightarrow> Inr (lines_acc [] text))"

text \<open>\<^verbatim>\<open>line.split()\<close>: the maximal runs of characters that are not white space.\<close>

definition is_space :: "char \<Rightarrow> bool" where
  "is_space c = (c \<in> set [CHR '' '', CHR 0x09, CHR 0x0A, CHR 0x0B, CHR 0x0C, CHR 0x0D,
                          CHR 0x1C, CHR 0x1D, CHR 0x1E, CHR 0x1F])"

fun split_acc :: "string \<Rightarrow> string \<Rightarrow> string list" where
  "split_acc cur [] = (if cur = [] then [] else [cur])"
| "split_acc cur (c # cs) =
     (if is_space c then (if cur = [] then split_acc [] cs else cur # split_acc [] cs)
      else split_acc (cur @ [c]) cs)"

definition py_split :: "string \<Rightarrow> string list" where
  "py_split line = split_acc [] line"

text \<open>
  \<^verbatim>\<open>os.path.basename\<close>, the root that \<^verbatim>\<open>os.path.splitext\<close> gives for a name without
  directory part (the extension starts at the last dot, unless only dots come before it),
  and \<^verbatim>\<open>s.split('_')[-1]\<close>.
\<close>

definition basename :: "string \<Rightarrow> string" where
  "basename p = rev (takeWhile (\<lambda>c. c \<noteq> CHR ''/'') (rev p))"

definition splitext_root :: "string \<Rightarrow> string" where
  "splitext_root p =
     (case dropWhile (\<lambda>c. c \<noteq> CHR ''.'') (rev p) of
        [] \<Rightarrow> p
      | dot # r \<Rightarrow> if list_ex (\<lambda>c. c \<noteq> CHR ''.'') r then rev r else p)"

definition last_field :: "string \<Rightarrow> string" where
  "last_field s = rev (takeWhile (\<lambda>c. c \<noteq> CHR ''_'') (rev s))"

text \<open>
  \<^verbatim>\<open>verbose > n\<close>: the option \<^verbatim>\<open>-v\<close> is counted, and is \<^verbatim>\<open>None\<close> when it was not given;
  comparing \<^verbatim>\<open>None\<close> with a number raises \<^verbatim>\<open>TypeError\<close>.
\<close>

definition verbose_gt :: "int option \<Rightarrow> int \<Rightarrow> error + bool" where
  "verbose_gt verbose n = (case verbose of None \<Rightarrow> Inl TypeError | Some v \<Rightarrow> Inr (n < v))"

text \<open>A \<^verbatim>\<open>for\<close> loop whose body may raise: the first exception ends the loop.\<close>

fun for_each :: "('a \<Rightarrow> 's \<Rightarrow> error + 's) \<Rightarrow> 'a list \<Rightarrow> 's \<Rightarrow> error + 's" where
  "for_each body [] s = Inr s"
| "for_each body (x # xs) s =
     (case body x s of Inl e \<Rightarrow> Inl e | Inr s' \<Rightarrow> for_each body xs s')"


section \<open>create.py: the session it writes to\<close>

text \<open>
  \<^verbatim>\<open>session.add\<close> puts a row at the end of its table. The integer keys of \<open>people\<close>
  and \<open>pair\<close> are assigned on insertion, one above the largest key in the table.
\<close>

definition next_id :: "nat list \<Rightarrow> nat" where
  "next_id ids = fold max ids 0 + 1"

definition add_Client :: "Client \<Rightarrow> tables \<Rightarrow> tables" where
  "add_Client c session = session\<lparr>client := client session @ [c]\<rparr>"

text \<open>
  The column \<^verbatim>\<open>shot_id\<close> is declared \<^verbatim>\<open>Integer\<close>. \<^verbatim>\<open>add_file\<close> hands the constructor
  the string cut out of the file name, and the engine stores a text that reads as an
  integer of 64 bits as that integer: white space around it and a sign in front are
  allowed, then digits only. In a row of the table, \<open>Shot_str s\<close> stands for what the
  engine keeps of any other text \<open>s\<close> (the text itself, or a floating-point number when
  the text reads as one).
\<close>

definition sqlite_space :: "char \<Rightarrow> bool" where
  "sqlite_space c = (c \<in> set [CHR '' '', CHR 0x09, CHR 0x0A, CHR 0x0B, CHR 0x0C, CHR 0x0D])"

fun decimal :: "string \<Rightarrow> int \<Rightarrow> int option" where
  "decimal [] acc = Some acc"
| "decimal (c # cs) acc =
     (case digit_of c of None \<Rightarrow> None | Some d \<Rightarrow> decimal cs (10 * acc + int d))"

definition sqlite_integer :: "string \<Rightarrow> int option" where
  "sqlite_integer text' =
     (let t = rev (dropWhile sqlite_space (rev (dropWhile sqlite_space text')));
          negative = startswith t ''-'';
          ds = (if negative \<or> startswith t ''+'' then drop 1 t else t)
      in if ds = [] then None
         else case decimal ds 0 of
                None \<Rightarrow> None
              | Some n \<Rightarrow>
                  (let i = (if negative then - n else n)
                   in if - (2 ^ 63) \<le> i \<and> i < 2 ^ 63 then Some i else None))"

definition Integer_column :: "shot \<Rightarrow> shot" where
  "Integer_column v =
     (case v of
        Shot_int i \<Rightarrow> Shot_int i
      | Shot_str s \<Rightarrow> (case sqlite_integer s of Some i \<Rightarrow> Shot_int i | None \<Rightarrow> Shot_str s))"

definition add_File :: "File \<Rightarrow> tables \<Rightarrow> tables" where
  "add_File f session =
     session\<lparr>file := file session @ [f\<lparr>shot_id := Integer_column (shot_id f)\<rparr>]\<rparr>"

definition add_People :: "string \<Rightarrow> string \<Rightarrow> tables \<Rightarrow> tables" where
  "add_People protocol' file_id' session =
     session\<lparr>people := people session @
       [\<lparr>People.id = next_id (map People.id (people session)), protocol = protocol',
         file_id = file_id'\<rparr>]\<rparr>"

definition add_Pair :: "string \<Rightarrow> string \<Rightarrow> string \<Rightarrow> bool \<Rightarrow> tables \<Rightarrow> tables" where
  "add_Pair protocol' file_id1 file_id2 is_match' session =
     session\<lparr>pair := pair session @
       [\<lparr>Pair.id = next_id (map Pair.id (pair session)), protocol = protocol',
         enrol_file_id = file_id1, probe_file_id = file_id2, is_match = is_match'\<rparr>]\<rparr>"

definition add_Annotation :: "Annotation \<Rightarrow> tables \<Rightarrow> tables" where
  "add_Annotation a session = session\<lparr>annotation := annotation session @ [a]\<rparr>"

text \<open>
  The rows added wait in the session until it is flushed: by \<^verbatim>\<open>session.flush()\<close>, before
  every query, and by \<^verbatim>\<open>commit\<close>. The engine then refuses a row whose primary key is in
  its table already, be it from an earlier run or from this one; the keys of \<open>client\<close>
  and \<open>file\<close> are the strings the constructors compute, those of \<open>people\<close> and
  \<open>pair\<close> are fresh. The tables of the model hold the waiting rows too, and \<open>flush\<close>
  makes the engine's check on the whole of them.
\<close>

definition flush :: "tables \<Rightarrow> error + tables" where
  "flush session =
     (if distinct (map Client.id (client session)) \<and> distinct (map File.id (file session))
      then Inr session else Inl IntegrityError)"

text \<open>
  \<^verbatim>\<open>session.query(File).filter(File.name == name).first().id\<close>: the first file row with
  that name; \<^verbatim>\<open>first()\<close> gives \<^verbatim>\<open>None\<close> when there is none, and the attribute access
  on it raises. The column \<^verbatim>\<open>File.name\<close> belongs to a declaration of \<^verbatim>\<open>File\<close> that is
  not among the sources; it is the parameter \<open>File_name\<close>.
\<close>

definition file_id_by_name :: "(File \<Rightarrow> string) \<Rightarrow> string \<Rightarrow> tables \<Rightarrow> error + string" where
  "file_id_by_name File_name name session =
     (case flush session of
        Inl e \<Rightarrow> Inl e
      | Inr session \<Rightarrow>
          (case find (\<lambda>f. File_name f = name) (file session) of
             None \<Rightarrow> Inl AttributeError
           | Some f \<Rightarrow> Inr (File.id f)))"


section \<open>create.py: the import\<close>

definition nodot :: "string \<Rightarrow> error + bool" where
  "nodot item = (case item of [] \<Rightarrow> Inl IndexError | c # _ \<Rightarrow> Inr (c \<noteq> CHR ''.''))"

text \<open>\<^verbatim>\<open>add_files\<close> with its inner \<^verbatim>\<open>add_client\<close> and \<^verbatim>\<open>add_file\<close>.\<close>

definition add_file :: "string \<Rightarrow> tables \<Rightarrow> tables" where
  "add_file file_name session =
     (let base_name = splitext_root (basename file_name);
          shot_id' = last_field base_name;
          client_id' = take (length base_name - (length shot_id' + 1)) base_name;
          f = File_init client_id' (Shot_str shot_id')
      in add_File f session)"

definition add_files_file :: "int option \<Rightarrow> string \<Rightarrow> tables \<Rightarrow> error + tables" where
  "add_files_file verbose filename session =
     (case nodot filename of
        Inl e \<Rightarrow> Inl e
      | Inr keep \<Rightarrow>
          if keep \<and> endswith filename ''.jpg''
          then (case verbose_gt verbose 1 of
                  Inl e \<Rightarrow> Inl e
                | Inr _ \<Rightarrow> Inr (add_file filename session))
          else Inr session)"

definition add_files_client :: "filesystem \<Rightarrow> string \<Rightarrow> int option \<Rightarrow> string \<Rightarrow> tables \<Rightarrow> error + tables" where
  "add_files_client fs imagedir verbose client_dir session =
     (case nodot client_dir of
        Inl e \<Rightarrow> Inl e
      | Inr keep \<Rightarrow>
          if keep
          then (let session = add_Client \<lparr>Client.id = client_dir\<rparr> session in
                case verbose_gt verbose 1 of
                  Inl e \<Rightarrow> Inl e
                | Inr _ \<Rightarrow>
                    (case os_listdir fs (os_path_join imagedir client_dir) of
                       Inl e \<Rightarrow> Inl e
                     | Inr names \<Rightarrow> for_each (add_files_file verbose) (sort names) session))
          else Inr session)"

definition add_files :: "filesystem \<Rightarrow> tables \<Rightarrow> string \<Rightarrow> int option \<Rightarrow> error + tables" where
  "add_files fs session basedir verbose =
     (let imagedir = os_path_join basedir ''all_images'' in
      case os_listdir fs imagedir of
        Inl e \<Rightarrow> Inl e
      | Inr names \<Rightarrow> for_each (add_files_client fs imagedir verbose) (sort names) session)"

text \<open>
  \<^verbatim>\<open>add_people\<close>. The function \<^verbatim>\<open>filename(client_id, shot)\<close> it calls is imported from
  the declarations that are not among the sources; it is the parameter \<open>filename\<close>.
\<close>

definition people_add_client ::
  "(string \<Rightarrow> int \<Rightarrow> string) \<Rightarrow> (File \<Rightarrow> string) \<Rightarrow> int option
     \<Rightarrow> string \<Rightarrow> string \<Rightarrow> int \<Rightarrow> tables \<Rightarrow> error + tables" where
  "people_add_client filename File_name verbose protocol' client_id' count' session =
     for_each (\<lambda>i session.
         case verbose_gt verbose 1 of
           Inl e \<Rightarrow> Inl e
         | Inr _ \<Rightarrow>
             (case file_id_by_name File_name (filename client_id' i) session of
                Inl e \<Rightarrow> Inl e
              | Inr file_id' \<Rightarrow> Inr (add_People protocol' file_id' session)))
       [1 .. count'] session"

definition parse_view1_line ::
  "(string \<Rightarrow> int \<Rightarrow> string) \<Rightarrow> (File \<Rightarrow> string) \<Rightarrow> int option
     \<Rightarrow> string \<Rightarrow> string \<Rightarrow> tables \<Rightarrow> error + tables" where
  "parse_view1_line filename File_name verbose protocol' line session =
     (case py_split line of
        [name, n] \<Rightarrow>
          (case py3_int n of
             Inl e \<Rightarrow> Inl e
           | Inr count' \<Rightarrow> people_add_client filename File_name verbose protocol' name count' session)
      | _ \<Rightarrow> Inr session)"

definition parse_view1 ::
  "(string \<Rightarrow> int \<Rightarrow> string) \<Rightarrow> (File \<Rightarrow> string) \<Rightarrow> filesystem \<Rightarrow> int option
     \<Rightarrow> tables \<Rightarrow> string \<Rightarrow> string \<Rightarrow> error + tables" where
  "parse_view1 filename File_name fs verbose session list_filename protocol' =
     (case open_lines fs list_filename of
        Inl e \<Rightarrow> Inl e
      | Inr ls \<Rightarrow> for_each (parse_view1_line filename File_name verbose protocol') ls session)"

text \<open>
  \<^verbatim>\<open>parse_view2\<close> carries \<^verbatim>\<open>fold_id\<close> and \<^verbatim>\<open>protocol\<close> from line to line;
  \<^verbatim>\<open>protocol\<close> is unbound until the first line with a single field.
\<close>

definition parse_view2_line ::
  "(string \<Rightarrow> int \<Rightarrow> string) \<Rightarrow> (File \<Rightarrow> string) \<Rightarrow> int option
     \<Rightarrow> string \<Rightarrow> int \<times> string option \<times> tables \<Rightarrow> error + int \<times> string option \<times> tables" where
  "parse_view2_line filename File_name verbose line st =
     (case st of (fold_id, protocol', session) \<Rightarrow>
        (case py_split line of
           [n] \<Rightarrow> Inr (fold_id + 1, Some (''fold'' @ str_int fold_id), session)
         | [name, n] \<Rightarrow>
             (case protocol' of
                None \<Rightarrow> Inl UnboundLocalError
              | Some pr \<Rightarrow>
                  (case py3_int n of
                     Inl e \<Rightarrow> Inl e
                   | Inr count' \<Rightarrow>
                       (case people_add_client filename File_name verbose pr name count' session of
                          Inl e \<Rightarrow> Inl e
                        | Inr session \<Rightarrow>
                            (case people_add_client filename File_name verbose ''view2'' name count'
                                    session of
                               Inl e \<Rightarrow> Inl e
                             | Inr session \<Rightarrow> Inr (fold_id, protocol', session)))))
         | _ \<Rightarrow> Inr st))"

definition parse_view2 ::
  "(string \<Rightarrow> int \<Rightarrow> string) \<Rightarrow> (File \<Rightarrow> string) \<Rightarrow> filesystem \<Rightarrow> int option
     \<Rightarrow> tables \<Rightarrow> string \<Rightarrow> error + tables" where
  "parse_view2 filename File_name fs verbose session list_filename =
     (case open_lines fs list_filename of
        Inl e \<Rightarrow> Inl e
      | Inr ls \<Rightarrow>
          (case for_each (parse_view2_line filename File_name verbose) ls (0, None, session) of
             Inl e \<Rightarrow> Inl e
           | Inr (fold_id, protocol', session) \<Rightarrow> Inr session))"

definition add_people ::
  "(string \<Rightarrow> int \<Rightarrow> string) \<Rightarrow> (File \<Rightarrow> string) \<Rightarrow> filesystem
     \<Rightarrow> tables \<Rightarrow> string \<Rightarrow> int option \<Rightarrow> error + tables" where
  "add_people filename File_name fs session basedir verbose =
     (case parse_view1 filename File_name fs verbose session
             (os_path_join (os_path_join basedir ''view1'') ''peopleDevTrain.txt'') ''train'' of
        Inl e \<Rightarrow> Inl e
      | Inr session \<Rightarrow>
     (case parse_view1 filename File_name fs verbose session
             (os_path_join (os_path_join basedir ''view1'') ''peopleDevTest.txt'') ''test'' of
        Inl e \<Rightarrow> Inl e
      | Inr session \<Rightarrow>
          parse_view2 filename File_name fs verbose session
            (os_path_join (os_path_join basedir ''view2'') ''people.txt'')))"

text \<open>\<^verbatim>\<open>add_pairs\<close> with its inner \<^verbatim>\<open>parse_file\<close>.\<close>

definition pair_file_id ::
  "(string \<Rightarrow> int \<Rightarrow> string) \<Rightarrow> (File \<Rightarrow> string) \<Rightarrow> string \<Rightarrow> string \<Rightarrow> tables \<Rightarrow> error + string" where
  "pair_file_id filename File_name name n session =
     (case py3_int n of
        Inl e \<Rightarrow> Inl e
      | Inr shot \<Rightarrow> file_id_by_name File_name (filename name shot) session)"

definition parse_file_pair ::
  "(string \<Rightarrow> int \<Rightarrow> string) \<Rightarrow> (File \<Rightarrow> string) \<Rightarrow> int option \<Rightarrow> string
     \<Rightarrow> string \<Rightarrow> string \<Rightarrow> string \<Rightarrow> string \<Rightarrow> bool \<Rightarrow> tables \<Rightarrow> error + tables" where
  "parse_file_pair filename File_name verbose protocol' name1 n1 name2 n2 is_match' session =
     (case pair_file_id filename File_name name1 n1 session of
        Inl e \<Rightarrow> Inl e
      | Inr file_id1 \<Rightarrow>
          (case pair_file_id filename File_name name2 n2 session of
             Inl e \<Rightarrow> Inl e
           | Inr file_id2 \<Rightarrow>
               (case verbose_gt verbose 1 of
                  Inl e \<Rightarrow> Inl e
                | Inr _ \<Rightarrow> Inr (add_Pair protocol' file_id1 file_id2 is_match' session))))"

definition parse_file_line ::
  "(string \<Rightarrow> int \<Rightarrow> string) \<Rightarrow> (File \<Rightarrow> string) \<Rightarrow> int option
     \<Rightarrow> string \<Rightarrow> string \<Rightarrow> tables \<Rightarrow> error + tables" where
  "parse_file_line filename File_name verbose protocol' line session =
     (case py_split line of
        [a, b, c] \<Rightarrow> parse_file_pair filename File_name verbose protocol' a b a c True session
      | [a, b, c, d] \<Rightarrow> parse_file_pair filename File_name verbose protocol' a b c d False session
      | _ \<Rightarrow> Inr session)"

definition parse_file ::
  "(string \<Rightarrow> int \<Rightarrow> string) \<Rightarrow> (File \<Rightarrow> string) \<Rightarrow> filesystem \<Rightarrow> int option
     \<Rightarrow> tables \<Rightarrow> string \<Rightarrow> string \<Rightarrow> error + tables" where
  "parse_file filename File_name fs verbose session list_filename protocol' =
     (case open_lines fs list_filename of
        Inl e \<Rightarrow> Inl e
      | Inr ls \<Rightarrow> for_each (parse_file_line filename File_name verbose protocol') ls session)"

definition pairs_fold_file :: "string \<Rightarrow> int \<Rightarrow> string" where
  "pairs_fold_file basedir fold' =
     os_path_join (os_path_join basedir ''view2'') (''pairs_fold'' @ str_int fold' @ ''.txt'')"

definition add_pairs_fold ::
  "(string \<Rightarrow> int \<Rightarrow> string) \<Rightarrow> (File \<Rightarrow> string) \<Rightarrow> filesystem \<Rightarrow> string \<Rightarrow> int option
     \<Rightarrow> int \<Rightarrow> tables \<Rightarrow> error + tables" where
  "add_pairs_fold filename File_name fs basedir verbose fold' session =
     (case parse_file filename File_name fs verbose session (pairs_fold_file basedir fold')
             (''fold'' @ str_int fold') of
        Inl e \<Rightarrow> Inl e
      | Inr session \<Rightarrow>
          parse_file filename File_name fs verbose session (pairs_fold_file basedir fold') ''view2'')"

definition add_pairs ::
  "(string \<Rightarrow> int \<Rightarrow> string) \<Rightarrow> (File \<Rightarrow> string) \<Rightarrow> filesystem
     \<Rightarrow> tables \<Rightarrow> string \<Rightarrow> int option \<Rightarrow> error + tables" where
  "add_pairs filename File_name fs session basedir verbose =
     (case flush session of
        Inl e \<Rightarrow> Inl e
      | Inr session \<Rightarrow>
     (case parse_file filename File_name fs verbose session
             (os_path_join (os_path_join basedir ''view1'') ''pairsDevTrain.txt'') ''train'' of
        Inl e \<Rightarrow> Inl e
      | Inr session \<Rightarrow>
     (case parse_file filename File_name fs verbose session
             (os_path_join (os_path_join basedir ''view1'') ''pairsDevTest.txt'') ''test'' of
        Inl e \<Rightarrow> Inl e
      | Inr session \<Rightarrow>
          for_each (add_pairs_fold filename File_name fs basedir verbose) [1 .. 10] session)))"

text \<open>
  \<^verbatim>\<open>add_annotations\<close>: the session is flushed and the file rows are queried once; for
  each, the annotation file is looked for, and read only when it exists.
\<close>

definition add_annotations_file ::
  "filesystem \<Rightarrow> string option \<Rightarrow> string \<Rightarrow> string \<Rightarrow> int option \<Rightarrow> File \<Rightarrow> tables
     \<Rightarrow> error + tables" where
  "add_annotations_file fs annotation_directory annotation_extension annotation_type verbose
       file' session =
     (let annotation_file = make_path file' annotation_directory (Some annotation_extension) in
      if \<not> os_path_exists fs annotation_file then Inr session
      else (case verbose_gt verbose 1 of
              Inl e \<Rightarrow> Inl e
            | Inr _ \<Rightarrow>
                (case open_read fs annotation_file of
                   Inl e \<Rightarrow> Inl e
                 | Inr annotation_file_content \<Rightarrow>
                     Inr (add_Annotation
                            (Annotation (File.id file') annotation_type annotation_file_content)
                            session))))"

definition add_annotations ::
  "filesystem \<Rightarrow> tables \<Rightarrow> string option \<Rightarrow> string \<Rightarrow> string \<Rightarrow> int option \<Rightarrow> error + tables" where
  "add_annotations fs session annotation_directory annotation_extension annotation_type verbose =
     (case flush session of
        Inl e \<Rightarrow> Inl e
      | Inr session \<Rightarrow>
          for_each
            (add_annotations_file fs annotation_directory annotation_extension annotation_type
               verbose)
            (file session) session)"

text \<open>
  The database file: the tables that exist in it, and their rows. \<^verbatim>\<open>metadata.create_all\<close>
  creates every table of the metadata that the file does not have yet. The five classes
  share the metadata of their common base, which holds the tables of all of them: the
  four that \<^verbatim>\<open>models.py\<close> names and the one of \<^verbatim>\<open>Annotation\<close>.
\<close>

record sqlite =
  table_names :: "string list"
  content :: tables

definition no_rows :: tables where
  "no_rows = \<lparr>client = [], file = [], people = [], pair = [], annotation = []\<rparr>"

text \<open>
  The \<^verbatim>\<open>__tablename__\<close> of each class of \<^verbatim>\<open>models.py\<close>; that of \<^verbatim>\<open>Annotation\<close> is
  modelled from the spec, as the class is.
\<close>

definition Client_tablename :: string where "Client_tablename = ''client''"
definition File_tablename :: string where "File_tablename = ''file''"
definition People_tablename :: string where "People_tablename = ''people''"
definition Pair_tablename :: string where "Pair_tablename = ''pair''"
definition Annotation_tablename :: string where "Annotation_tablename = ''annotation''"

definition Base_metadata :: "string list" where
  "Base_metadata =
     [Client_tablename, File_tablename, People_tablename, Pair_tablename, Annotation_tablename]"

fun create_all :: "string list \<Rightarrow> sqlite \<Rightarrow> sqlite" where
  "create_all [] engine = engine"
| "create_all (t # ts) engine =
     create_all ts (if t \<in> set (table_names engine) then engine
                    else engine\<lparr>table_names := table_names engine @ [t]\<rparr>)"

text \<open>
  The arguments \<^verbatim>\<open>create\<close> reads from the command line (\<^verbatim>\<open>args.type\<close> only names the
  database engine).
\<close>

record args =
  files :: "string list"
  recreate :: bool
  verbose :: "int option"
  basedir :: string
  annotation_types :: "string list"
  idiap_annotation_dir :: "string option"
  funneled_annotation_dir :: "string option"

text \<open>
  The place of the database file is kept apart from the file system the import reads, and
  is in one of three states: the directory of the file is missing, the directory is there
  without the file, or the file is there with its tables. \<^verbatim>\<open>os.path.exists\<close> tells them
  apart, and is false of the empty path; \<^verbatim>\<open>os.unlink\<close> removes the file;
  \<^verbatim>\<open>os.makedirs\<close> makes the directory, and raises for the empty path, which is what
  \<^verbatim>\<open>os.path.dirname\<close> gives for a file name without a slash. (The database file is
  taken to lie outside the directories the import lists, and making a directory with a
  name to succeed.)
\<close>

datatype place = No_directory | No_file | Db_file sqlite

definition os_path_dirname :: "string \<Rightarrow> string" where
  "os_path_dirname p =
     (let head = rev (dropWhile (\<lambda>c. c \<noteq> CHR ''/'') (rev p))
      in if head \<noteq> [] \<and> list_ex (\<lambda>c. c \<noteq> CHR ''/'') head
         then rev (dropWhile (\<lambda>c. c = CHR ''/'') (rev head))
         else head)"

definition dbfile_exists :: "place \<Rightarrow> bool" where
  "dbfile_exists db = (case db of Db_file d \<Rightarrow> True | _ \<Rightarrow> False)"

definition dbdir_exists :: "string \<Rightarrow> place \<Rightarrow> bool" where
  "dbdir_exists directory db = (directory \<noteq> [] \<and> db \<noteq> No_directory)"

definition os_unlink :: "place \<Rightarrow> place" where
  "os_unlink db = No_file"

definition os_makedirs :: "string \<Rightarrow> place \<Rightarrow> error + place" where
  "os_makedirs directory db = (if directory = [] then Inl OSError else Inr No_file)"

text \<open>
  \<^verbatim>\<open>create_tables\<close>: the engine is opened on the file, which comes into being when it is
  not there and cannot when its directory is missing, and \<^verbatim>\<open>create_all\<close> is called once
  for each of the five classes.
\<close>

definition connect_engine :: "place \<Rightarrow> error + sqlite" where
  "connect_engine db =
     (case db of
        No_directory \<Rightarrow> Inl OperationalError
      | No_file \<Rightarrow> Inr \<lparr>table_names = [], content = no_rows\<rparr>
      | Db_file d \<Rightarrow> Inr d)"

definition create_tables :: "args \<Rightarrow> place \<Rightarrow> error + sqlite" where
  "create_tables args db =
     (case files args of
        [] \<Rightarrow> Inl IndexError
      | dbfile # _ \<Rightarrow>
          (case verbose_gt (verbose args) 2 of
             Inl e \<Rightarrow> Inl e
           | Inr echo \<Rightarrow>
               (case connect_engine db of
                  Inl e \<Rightarrow> Inl e
                | Inr engine \<Rightarrow>
                    Inr (create_all Base_metadata (create_all Base_metadata
                          (create_all Base_metadata (create_all Base_metadata
                            (create_all Base_metadata engine))))))))"

text \<open>
  \<^verbatim>\<open>create\<close>. The rows reach the file with \<^verbatim>\<open>commit\<close>; when an exception ends the run
  before, the file keeps the tables that were created and the rows it had.
\<close>

definition create ::
  "(string \<Rightarrow> int \<Rightarrow> string) \<Rightarrow> (File \<Rightarrow> string) \<Rightarrow> args \<Rightarrow> filesystem \<Rightarrow> place
     \<Rightarrow> (error + unit) \<times> place" where
  "create filename File_name args fs db =
     (case files args of
        [] \<Rightarrow> (Inl IndexError, db)
      | dbfile # _ \<Rightarrow>
     (let db = (if recreate args \<and> dbfile_exists db then os_unlink db else db) in
      case (if \<not> dbdir_exists (os_path_dirname dbfile) db
            then os_makedirs (os_path_dirname dbfile) db else Inr db) of
        Inl e \<Rightarrow> (Inl e, db)
      | Inr db \<Rightarrow>
     (case create_tables args db of
        Inl e \<Rightarrow> (Inl e, db)
      | Inr d \<Rightarrow>
     (case verbose_gt (verbose args) 2 of
        Inl e \<Rightarrow> (Inl e, Db_file d)
      | Inr echo \<Rightarrow>
     (case add_files fs (content d) (basedir args) (verbose args) of
        Inl e \<Rightarrow> (Inl e, Db_file d)
      | Inr s \<Rightarrow>
     (case add_people filename File_name fs s (basedir args) (verbose args) of
        Inl e \<Rightarrow> (Inl e, Db_file d)
      | Inr s \<Rightarrow>
     (case add_pairs filename File_name fs s (basedir args) (verbose args) of
        Inl e \<Rightarrow> (Inl e, Db_file d)
      | Inr s \<Rightarrow>
     (case (if ''idiap'' \<in> set (annotation_types args)
            then add_annotations fs s (idiap_annotation_dir args) ''.pos'' ''idiap'' (verbose args)
            else Inr s) of
        Inl e \<Rightarrow> (Inl e, Db_file d)
      | Inr s \<Rightarrow>
     (case (if ''funneled'' \<in> set (annotation_types args)
            then add_annotations fs s (funneled_annotation_dir args) ''.jpg.pts'' ''funneled''
                   (verbose args)
            else Inr s) of
        Inl e \<Rightarrow> (Inl e, Db_file d)
      | Inr s \<Rightarrow>
     (case flush s of
        Inl e \<Rightarrow> (Inl e, Db_file d)
      | Inr s \<Rightarrow> (Inr (), Db_file (d\<lparr>content := s\<rparr>))))))))))))"


section \<open>What the specification speaks of\<close>

text \<open>
  The elements of a \<^verbatim>\<open>groups\<close>, \<^verbatim>\<open>purposes\<close> or \<^verbatim>\<open>classes\<close> argument: those of the
  sequence; a non-empty string counts as the one value it is; \<^verbatim>\<open>None\<close>, the empty
  sequence and the empty string have none. A value is outside a valid set when it is none
  of its strings.
\<close>

fun argument_elements :: "pyval \<Rightarrow> pyval list" where
  "argument_elements PNone = []"
| "argument_elements (PStr s) = (if s = [] then [] else [PStr s])"
| "argument_elements (PSeq xs) = xs"

definition outside :: "pyval \<Rightarrow> string list \<Rightarrow> bool" where
  "outside v valid = (v \<notin> set (map PStr valid))"

definition has_invalid_element :: "pyval \<Rightarrow> string list \<Rightarrow> bool" where
  "has_invalid_element a valid = list_ex (\<lambda>v. outside v valid) (argument_elements a)"

definition invalid_subworld :: "pyval \<Rightarrow> bool" where
  "invalid_subworld sw = (sw \<noteq> PNone \<and> outside sw (map fst m_subworld_counts))"

text \<open>
  A database that conforms to the schema \<^verbatim>\<open>models.py\<close> declares: the columns marked
  \<^verbatim>\<open>primary_key=True\<close> identify their rows, and every column declared with
  \<^verbatim>\<open>ForeignKey\<close> holds a key of the table it names.
\<close>

definition primary_key :: "('r \<Rightarrow> 'k) \<Rightarrow> 'r list \<Rightarrow> bool" where
  "primary_key key rows = distinct (map key rows)"

definition foreign_key :: "('r \<Rightarrow> 'k) \<Rightarrow> 'r list \<Rightarrow> ('s \<Rightarrow> 'k) \<Rightarrow> 's list \<Rightarrow> bool" where
  "foreign_key column rows key target = list_all (\<lambda>r. column r \<in> set (map key target)) rows"

definition schema_ok :: "tables \<Rightarrow> bool" where
  "schema_ok t =
     (primary_key Client.id (client t) \<and> primary_key File.id (file t)
      \<and> primary_key People.id (people t) \<and> primary_key Pair.id (pair t)
      \<and> foreign_key File.client_id (file t) Client.id (client t)
      \<and> foreign_key People.file_id (people t) File.id (file t)
      \<and> foreign_key Pair.enrol_file_id (pair t) File.id (file t)
      \<and> foreign_key Pair.probe_file_id (pair t) File.id (file t))"

text \<open>A small database on which the statements below are run.\<close>

definition example_tables :: tables where
  "example_tables =
     \<lparr> client = [\<lparr>Client.id = ''Ann''\<rparr>, \<lparr>Client.id = ''Bob''\<rparr>],
       file = [\<lparr>File.id = ''Ann_0001'', client_id = ''Ann'', path = ''Ann/Ann_0001'', shot_id = Shot_int 1\<rparr>,
               \<lparr>File.id = ''Ann_0002'', client_id = ''Ann'', path = ''Ann/Ann_0002'', shot_id = Shot_int 2\<rparr>,
               \<lparr>File.id = ''Bob_0001'', client_id = ''Bob'', path = ''Bob/Bob_0001'', shot_id = Shot_int 1\<rparr>],
       people = [\<lparr>People.id = 1, protocol = ''train'', file_id = ''Ann_0001''\<rparr>,
                 \<lparr>People.id = 2, protocol = ''train'', file_id = ''Ann_0002''\<rparr>,
                 \<lparr>People.id = 3, protocol = ''fold10'', file_id = ''Bob_0001''\<rparr>],
       pair = [\<lparr>Pair.id = 1, protocol = ''fold10'', enrol_file_id = ''Ann_0001'',
                 probe_file_id = ''Ann_0002'', is_match = True\<rparr>,
               \<lparr>Pair.id = 2, protocol = ''fold8'', enrol_file_id = ''Ann_0001'',
                 probe_file_id = ''Bob_0001'', is_match = False\<rparr>,
               \<lparr>Pair.id = 3, protocol = ''fold2'', enrol_file_id = ''Bob_0001'',
                 probe_file_id = ''Ann_0002'', is_match = False\<rparr>,
               \<lparr>Pair.id = 4, protocol = ''train'', enrol_file_id = ''Ann_0002'',
                 probe_file_id = ''Ann_0001'', is_match = True\<rparr>],
       annotation = [] \<rparr>"

definition example_db :: Database where
  "example_db = Database_init (Some example_tables)"


text \<open>
  The rows \<^verbatim>\<open>add_annotations\<close> is to add: one for each file whose annotation file is
  there, none for a file whose annotation file is missing.
\<close>

definition annotation_rows ::
  "filesystem \<Rightarrow> string option \<Rightarrow> string \<Rightarrow> string \<Rightarrow> File list \<Rightarrow> Annotation list" where
  "annotation_rows fs annotation_directory annotation_extension annotation_type files' =
     concat (map (\<lambda>f.
        case fs (make_path f annotation_directory (Some annotation_extension)) of
          Some (Regular c) \<Rightarrow> [Annotation (File.id f) annotation_type (universal_newlines c)]
        | _ \<Rightarrow> []) files')"

definition not_a_directory :: "node option \<Rightarrow> bool" where
  "not_a_directory n = (case n of Some (Directory names) \<Rightarrow> False | _ \<Rightarrow> True)"

text \<open>
  Two file systems hold the same tree and the same files when each path leads in both to
  nothing, or to a regular file of the same content, or to a directory with the same
  names, which \<^verbatim>\<open>os.listdir\<close> may give in a different order each time.
\<close>

fun same_node :: "node option \<Rightarrow> node option \<Rightarrow> bool" where
  "same_node None None = True"
| "same_node (Some (Regular c)) (Some (Regular c')) = (c = c')"
| "same_node (Some (Directory names)) (Some (Directory names')) = (mset names = mset names')"
| "same_node _ _ = False"

text \<open>
  What a directory listing comes to once it is sorted; the text files \<^verbatim>\<open>create\<close> opens
  below a base directory; the paths of annotation files, which end in one of the two
  extensions \<^verbatim>\<open>create\<close> passes on.
\<close>

definition sorted_listdir :: "filesystem \<Rightarrow> string \<Rightarrow> error + string list" where
  "sorted_listdir fs p = (case os_listdir fs p of Inl e \<Rightarrow> Inl e | Inr names \<Rightarrow> Inr (sort names))"

definition protocol_files :: "string \<Rightarrow> string list" where
  "protocol_files basedir' =
     [os_path_join (os_path_join basedir' ''view1'') ''peopleDevTrain.txt'',
      os_path_join (os_path_join basedir' ''view1'') ''peopleDevTest.txt'',
      os_path_join (os_path_join basedir' ''view2'') ''people.txt'',
      os_path_join (os_path_join basedir' ''view1'') ''pairsDevTrain.txt'',
      os_path_join (os_path_join basedir' ''view1'') ''pairsDevTest.txt'']
     @ map (pairs_fold_file basedir') [1 .. 10]"

definition annotation_path :: "string \<Rightarrow> bool" where
  "annotation_path p = (endswith p ''.pos'' \<or> endswith p ''.jpg.pts'')"

text \<open>
  The place a run of \<^verbatim>\<open>create\<close> starts from (no file after \<^verbatim>\<open>--recreate\<close>), its
  tables and its rows.
\<close>

definition db_before :: "args \<Rightarrow> place \<Rightarrow> place" where
  "db_before args db = (if recreate args then No_file else db)"

definition tables_of :: "place \<Rightarrow> string list" where
  "tables_of db = (case db of Db_file d \<Rightarrow> table_names d | _ \<Rightarrow> [])"

definition rows_of :: "place \<Rightarrow> tables" where
  "rows_of db = (case db of Db_file d \<Rightarrow> content d | _ \<Rightarrow> no_rows)"

text \<open>
  The rows \<^verbatim>\<open>create\<close> is to insert, table by table.

  \<^bold>\<open>client\<close> and \<^bold>\<open>file\<close>. The names of a directory that count are those that do not
  begin with a dot, in sorted order. Each such name in \<^verbatim>\<open>all_images\<close> is a client; each
  such name ending in \<^verbatim>\<open>.jpg\<close> in the directory of a client is a picture. The row of a
  picture is made from its name without the extension: the shot is what follows the last
  underscore, the client what precedes it.
\<close>

definition visible_names :: "filesystem \<Rightarrow> string \<Rightarrow> string list" where
  "visible_names fs directory =
     (case fs directory of
        Some (Directory names) \<Rightarrow> filter (\<lambda>n. \<not> startswith n ''.'') (sort names)
      | _ \<Rightarrow> [])"

definition picture_row :: "string \<Rightarrow> File" where
  "picture_row name =
     (let stem = splitext_root (basename name);
          shot' = last_field stem;
          person = take (length stem - (length shot' + 1)) stem
      in (File_init person (Shot_str shot'))\<lparr>shot_id := Integer_column (Shot_str shot')\<rparr>)"

definition pictures_in :: "filesystem \<Rightarrow> string \<Rightarrow> File list" where
  "pictures_in fs directory =
     map picture_row (filter (\<lambda>n. endswith n ''.jpg'') (visible_names fs directory))"

definition client_rows :: "filesystem \<Rightarrow> string \<Rightarrow> Client list" where
  "client_rows fs basedir' =
     map (\<lambda>n. \<lparr>Client.id = n\<rparr>) (visible_names fs (os_path_join basedir' ''all_images''))"

definition picture_rows :: "filesystem \<Rightarrow> string \<Rightarrow> File list" where
  "picture_rows fs basedir' =
     concat (map (\<lambda>c. pictures_in fs (os_path_join (os_path_join basedir' ''all_images'') c))
               (visible_names fs (os_path_join basedir' ''all_images'')))"

text \<open>
  \<^bold>\<open>people\<close>. A line of two fields, a name and a number \<open>n\<close>, stands for the pictures
  \<open>1\<close> to \<open>n\<close> of that person; each is entered with the identifier of the first file row
  that bears its file name. The two lists of view 1 enter them under \<^verbatim>\<open>train\<close> and
  \<^verbatim>\<open>test\<close>. In the list of view 2 a line of one field begins a fold, numbered from 0 in
  the order of these lines; the persons that follow are entered under \<^verbatim>\<open>fold\<close> and that
  number, and then under \<^verbatim>\<open>view2\<close>. The rows are numbered on from the largest key in
  the table.
\<close>

definition lines_of :: "filesystem \<Rightarrow> string \<Rightarrow> string list" where
  "lines_of fs p = (case open_lines fs p of Inr ls \<Rightarrow> ls | Inl e \<Rightarrow> [])"

definition number_of :: "string \<Rightarrow> int" where
  "number_of n = (case py3_int n of Inr i \<Rightarrow> i | Inl e \<Rightarrow> 0)"

definition id_of_name :: "(File \<Rightarrow> string) \<Rightarrow> File list \<Rightarrow> string \<Rightarrow> string" where
  "id_of_name File_name rows name =
     (case find (\<lambda>f. File_name f = name) rows of Some f \<Rightarrow> File.id f | None \<Rightarrow> [])"

definition pictures_of ::
  "(string \<Rightarrow> int \<Rightarrow> string) \<Rightarrow> (File \<Rightarrow> string) \<Rightarrow> File list \<Rightarrow> string \<Rightarrow> string \<Rightarrow> string
     \<Rightarrow> (string \<times> string) list" where
  "pictures_of filename File_name rows protocol' name n =
     map (\<lambda>i. (protocol', id_of_name File_name rows (filename name i))) [1 .. number_of n]"

definition view1_line ::
  "(string \<Rightarrow> int \<Rightarrow> string) \<Rightarrow> (File \<Rightarrow> string) \<Rightarrow> File list \<Rightarrow> string \<Rightarrow> string
     \<Rightarrow> (string \<times> string) list" where
  "view1_line filename File_name rows protocol' line =
     (case py_split line of
        [name, n] \<Rightarrow> pictures_of filename File_name rows protocol' name n
      | _ \<Rightarrow> [])"

definition view1_people ::
  "(string \<Rightarrow> int \<Rightarrow> string) \<Rightarrow> (File \<Rightarrow> string) \<Rightarrow> File list \<Rightarrow> string \<Rightarrow> string list
     \<Rightarrow> (string \<times> string) list" where
  "view1_people filename File_name rows protocol' ls =
     concat (map (view1_line filename File_name rows protocol') ls)"

fun view2_people ::
  "(string \<Rightarrow> int \<Rightarrow> string) \<Rightarrow> (File \<Rightarrow> string) \<Rightarrow> File list \<Rightarrow> int \<Rightarrow> string \<Rightarrow> string list
     \<Rightarrow> (string \<times> string) list" where
  "view2_people filename File_name rows k protocol' [] = []"
| "view2_people filename File_name rows k protocol' (line # ls) =
     (case py_split line of
        [n] \<Rightarrow> view2_people filename File_name rows (k + 1) (''fold'' @ str_int k) ls
      | [name, n] \<Rightarrow>
          pictures_of filename File_name rows protocol' name n
          @ pictures_of filename File_name rows ''view2'' name n
          @ view2_people filename File_name rows k protocol' ls
      | _ \<Rightarrow> view2_people filename File_name rows k protocol' ls)"

definition people_entries ::
  "(string \<Rightarrow> int \<Rightarrow> string) \<Rightarrow> (File \<Rightarrow> string) \<Rightarrow> filesystem \<Rightarrow> string \<Rightarrow> File list
     \<Rightarrow> (string \<times> string) list" where
  "people_entries filename File_name fs basedir' rows =
     view1_people filename File_name rows ''train''
       (lines_of fs (os_path_join (os_path_join basedir' ''view1'') ''peopleDevTrain.txt''))
     @ view1_people filename File_name rows ''test''
         (lines_of fs (os_path_join (os_path_join basedir' ''view1'') ''peopleDevTest.txt''))
     @ view2_people filename File_name rows 0 []
         (lines_of fs (os_path_join (os_path_join basedir' ''view2'') ''people.txt''))"

fun People_rows :: "nat \<Rightarrow> (string \<times> string) list \<Rightarrow> People list" where
  "People_rows k [] = []"
| "People_rows k ((protocol', file_id') # es) =
     \<lparr>People.id = k, protocol = protocol', file_id = file_id'\<rparr> # People_rows (Suc k) es"

text \<open>
  \<^bold>\<open>pair\<close>. A line of three fields, a name and two numbers, is a matched pair of two
  pictures of one person; a line of four fields, a name and a number twice, is an
  unmatched pair. The two lists of view 1 are entered under \<^verbatim>\<open>train\<close> and \<^verbatim>\<open>test\<close>,
  the list of each of the ten folds under its fold and then under \<^verbatim>\<open>view2\<close>.
\<close>

definition pair_line ::
  "(string \<Rightarrow> int \<Rightarrow> string) \<Rightarrow> (File \<Rightarrow> string) \<Rightarrow> File list \<Rightarrow> string \<Rightarrow> string
     \<Rightarrow> (string \<times> string \<times> string \<times> bool) list" where
  "pair_line filename File_name rows protocol' line =
     (case py_split line of
        [a, b, c] \<Rightarrow>
          [(protocol', id_of_name File_name rows (filename a (number_of b)),
            id_of_name File_name rows (filename a (number_of c)), True)]
      | [a, b, c, d] \<Rightarrow>
          [(protocol', id_of_name File_name rows (filename a (number_of b)),
            id_of_name File_name rows (filename c (number_of d)), False)]
      | _ \<Rightarrow> [])"

definition file_pairs ::
  "(string \<Rightarrow> int \<Rightarrow> string) \<Rightarrow> (File \<Rightarrow> string) \<Rightarrow> File list \<Rightarrow> string \<Rightarrow> string list
     \<Rightarrow> (string \<times> string \<times> string \<times> bool) list" where
  "file_pairs filename File_name rows protocol' ls =
     concat (map (pair_line filename File_name rows protocol') ls)"

definition fold_pairs ::
  "(string \<Rightarrow> int \<Rightarrow> string) \<Rightarrow> (File \<Rightarrow> string) \<Rightarrow> filesystem \<Rightarrow> string \<Rightarrow> File list \<Rightarrow> int
     \<Rightarrow> (string \<times> string \<times> string \<times> bool) list" where
  "fold_pairs filename File_name fs basedir' rows k =
     file_pairs filename File_name rows (''fold'' @ str_int k)
       (lines_of fs (pairs_fold_file basedir' k))
     @ file_pairs filename File_name rows ''view2'' (lines_of fs (pairs_fold_file basedir' k))"

definition pair_entries ::
  "(string \<Rightarrow> int \<Rightarrow> string) \<Rightarrow> (File \<Rightarrow> string) \<Rightarrow> filesystem \<Rightarrow> string \<Rightarrow> File list
     \<Rightarrow> (string \<times> string \<times> string \<times> bool) list" where
  "pair_entries filename File_name fs basedir' rows =
     file_pairs filename File_name rows ''train''
       (lines_of fs (os_path_join (os_path_join basedir' ''view1'') ''pairsDevTrain.txt''))
     @ file_pairs filename File_name rows ''test''
         (lines_of fs (os_path_join (os_path_join basedir' ''view1'') ''pairsDevTest.txt''))
     @ concat (map (fold_pairs filename File_name fs basedir' rows) [1 .. 10])"

fun Pair_rows :: "nat \<Rightarrow> (string \<times> string \<times> string \<times> bool) list \<Rightarrow> Pair list" where
  "Pair_rows k [] = []"
| "Pair_rows k ((protocol', file_id1, file_id2, is_match') # es) =
     \<lparr>Pair.id = k, protocol = protocol', enrol_file_id = file_id1, probe_file_id = file_id2,
      is_match = is_match'\<rparr> # Pair_rows (Suc k) es"

text \<open>
  \<^bold>\<open>annotation\<close>. For each kind of annotation asked for, \<^verbatim>\<open>idiap\<close> before
  \<^verbatim>\<open>funneled\<close>, one row for each file row whose annotation file is there.
\<close>

definition annotation_entries :: "args \<Rightarrow> filesystem \<Rightarrow> File list \<Rightarrow> Annotation list" where
  "annotation_entries args fs rows =
     (if ''idiap'' \<in> set (annotation_types args)
      then annotation_rows fs (idiap_annotation_dir args) ''.pos'' ''idiap'' rows else [])
     @ (if ''funneled'' \<in> set (annotation_types args)
        then annotation_rows fs (funneled_annotation_dir args) ''.jpg.pts'' ''funneled'' rows
        else [])"

text \<open>
  The five tables after the import: each holds the rows it had, followed by the rows
  inserted. The file names of the protocol lists are looked up among all file rows, the
  former and the new, and so are the annotation files.
\<close>

definition imported ::
  "(string \<Rightarrow> int \<Rightarrow> string) \<Rightarrow> (File \<Rightarrow> string) \<Rightarrow> args \<Rightarrow> filesystem \<Rightarrow> tables \<Rightarrow> tables" where
  "imported filename File_name args fs before =
     (let rows = file before @ picture_rows fs (basedir args)
      in \<lparr>client = client before @ client_rows fs (basedir args),
          file = rows,
          people = people before
            @ People_rows (next_id (map People.id (people before)))
                (people_entries filename File_name fs (basedir args) rows),
          pair = pair before
            @ Pair_rows (next_id (map Pair.id (pair before)))
                (pair_entries filename File_name fs (basedir args) rows),
          annotation = annotation before @ annotation_entries args fs rows\<rparr>)"

text \<open>Entries inserted one after the other.\<close>

definition add_all_People :: "(string \<times> string) list \<Rightarrow> tables \<Rightarrow> tables" where
  "add_all_People es session = fold (\<lambda>(protocol', file_id'). add_People protocol' file_id') es session"

definition add_all_Pair :: "(string \<times> string \<times> string \<times> bool) list \<Rightarrow> tables \<Rightarrow> tables" where
  "add_all_Pair es session =
     fold (\<lambda>(protocol', file_id1, file_id2, is_match').
             add_Pair protocol' file_id1 file_id2 is_match') es session"

definition regular_file :: "node option \<Rightarrow> bool" where
  "regular_file n = (case n of Some (Regular c) \<Rightarrow> True | _ \<Rightarrow> False)"

text \<open>
  A small installation for the import to run on: two clients, three pictures, a hidden
  entry and a text file among them, the protocol lists, and one annotation file.
\<close>

definition example_filename :: "string \<Rightarrow> int \<Rightarrow> string" where
  "example_filename client_id' shot = File.id (File_init client_id' (Shot_int shot))"

definition nl :: string where "nl = [CHR 0x0A]"

definition example_fs :: filesystem where
  "example_fs = map_of
     [(''/lfw/all_images'', Directory [''Bob'', ''.hidden'', ''Ann'']),
      (''/lfw/all_images/Ann/Ann_0001.jpg'', Regular ''a picture''),
      (''/lfw/all_images/Ann'', Directory [''Ann_0002.jpg'', ''Ann_0001.jpg'', ''notes.txt'']),
      (''/lfw/all_images/Bob'', Directory [''Bob_0001.jpg'']),
      (''/lfw/view1/peopleDevTrain.txt'', Regular (''1'' @ nl @ ''Ann 2'' @ nl)),
      (''/lfw/view1/peopleDevTest.txt'', Regular (''1'' @ nl @ ''Bob 1'' @ nl)),
      (''/lfw/view2/people.txt'', Regular (''10'' @ nl @ ''1'' @ nl @ ''Ann 2'' @ nl @ ''1'' @ nl @ ''Bob 1'' @ nl)),
      (''/lfw/view1/pairsDevTrain.txt'', Regular (''2'' @ nl @ ''Ann 1 2'' @ nl @ ''Ann 1 Bob 1'' @ nl)),
      (''/lfw/view1/pairsDevTest.txt'', Regular []),
      (''/lfw/view2/pairs_fold1.txt'', Regular (''Ann 2 Bob 1'' @ nl)),
      (''/lfw/view2/pairs_fold2.txt'', Regular []),
      (''/lfw/view2/pairs_fold3.txt'', Regular []),
      (''/lfw/view2/pairs_fold4.txt'', Regular []),
      (''/lfw/view2/pairs_fold5.txt'', Regular []),
      (''/lfw/view2/pairs_fold6.txt'', Regular []),
      (''/lfw/view2/pairs_fold7.txt'', Regular []),
      (''/lfw/view2/pairs_fold8.txt'', Regular []),
      (''/lfw/view2/pairs_fold9.txt'', Regular []),
      (''/lfw/view2/pairs_fold10.txt'', Regular []),
      (''/ann/Ann/Ann_0002.jpg.pts'', Regular (''10 20'' @ nl))]"

definition example_args :: args where
  "example_args = \<lparr> files = [''/db/db.sql3''], recreate = False, verbose = Some 1,
      basedir = ''/lfw'', annotation_types = [''funneled''], idiap_annotation_dir = None,
      funneled_annotation_dir = Some ''/ann'' \<rparr>"

definition example_result :: sqlite where
  "example_result =
   \<lparr>table_names = [''client'', ''file'', ''people'', ''pair'', ''annotation''],
    content =
      \<lparr>client = [\<lparr>Client.id = ''Ann''\<rparr>, \<lparr>Client.id = ''Bob''\<rparr>],
       file =
         [\<lparr>File.id = ''Ann_0001'', client_id = ''Ann'', path = ''Ann/Ann_0001'', shot_id = Shot_int 1\<rparr>,
          \<lparr>File.id = ''Ann_0002'', client_id = ''Ann'', path = ''Ann/Ann_0002'', shot_id = Shot_int 2\<rparr>,
          \<lparr>File.id = ''Bob_0001'', client_id = ''Bob'', path = ''Bob/Bob_0001'', shot_id = Shot_int 1\<rparr>],
       people =
         [\<lparr>People.id = 1, protocol = ''train'', file_id = ''Ann_0001''\<rparr>,
          \<lparr>People.id = 2, protocol = ''train'', file_id = ''Ann_0002''\<rparr>,
          \<lparr>People.id = 3, protocol = ''test'', file_id = ''Bob_0001''\<rparr>,
          \<lparr>People.id = 4, protocol = ''fold1'', file_id = ''Ann_0001''\<rparr>,
          \<lparr>People.id = 5, protocol = ''fold1'', file_id = ''Ann_0002''\<rparr>,
          \<lparr>People.id = 6, protocol = ''view2'', file_id = ''Ann_0001''\<rparr>,
          \<lparr>People.id = 7, protocol = ''view2'', file_id = ''Ann_0002''\<rparr>,
          \<lparr>People.id = 8, protocol = ''fold2'', file_id = ''Bob_0001''\<rparr>,
          \<lparr>People.id = 9, protocol = ''view2'', file_id = ''Bob_0001''\<rparr>],
       pair =
         [\<lparr>Pair.id = 1, protocol = ''train'', enrol_file_id = ''Ann_0001'', probe_file_id = ''Ann_0002'', is_match = True\<rparr>,
          \<lparr>Pair.id = 2, protocol = ''train'', enrol_file_id = ''Ann_0001'', probe_file_id = ''Bob_0001'', is_match = False\<rparr>,
          \<lparr>Pair.id = 3, protocol = ''fold1'', enrol_file_id = ''Ann_0002'', probe_file_id = ''Bob_0001'', is_match = False\<rparr>,
          \<lparr>Pair.id = 4, protocol = ''view2'', enrol_file_id = ''Ann_0002'', probe_file_id = ''Bob_0001'', is_match = False\<rparr>],
       annotation = [Annotation ''Ann_0002'' ''funneled'' (''10 20'' @ nl)]\<rparr>\<rparr>"

definition example_fs_shuffled :: filesystem where
  "example_fs_shuffled = example_fs
     (''/lfw/all_images'' \<mapsto> Directory [''Ann'', ''Bob'', ''.hidden''],
      ''/lfw/all_images/Ann'' \<mapsto> Directory [''notes.txt'', ''Ann_0001.jpg'', ''Ann_0002.jpg''])"

definition example_fs_retouched :: filesystem where
  "example_fs_retouched = example_fs
     (''/lfw/all_images/Ann/Ann_0001.jpg'' \<mapsto> Regular ''another picture'')"


section \<open>Properties\<close>

subsection \<open>The identifier and the path of a file\<close>

lemma left_pad_replicate:
  "left_pad w c s = replicate (w - length s) c @ s"
proof (induction w c s rule: left_pad.induct)
  case (1 w c s)
  show ?case
  proof (cases "length s < w")
    case True
    then have "w - length s = Suc (w - length (c # s))" by simp
    with True "1" show ?thesis
      by (subst left_pad.simps) (simp add: replicate_app_Cons_same)
  next
    case False
    then show ?thesis by (subst left_pad.simps) simp
  qed
qed

text \<open>
  C10. A file built from a client identifier and a shot number whose string has at most
  four characters gets the identifier \<^verbatim>\<open>client_id + "_" +\<close> the shot string padded on the
  left with \<^verbatim>\<open>0\<close> to exactly four characters, and the path
  \<^verbatim>\<open>os.path.join(client_id, id)\<close>.
\<close>

theorem File_init_id_path:
  assumes "length (str_shot sh) \<le> 4"
  shows "File.id (File_init c sh) = c @ ''_'' @ left_pad 4 CHR ''0'' (str_shot sh)
       \<and> length (left_pad 4 CHR ''0'' (str_shot sh)) = 4
       \<and> File.path (File_init c sh) = os_path_join c (File.id (File_init c sh))"
  using assms by (simp add: File_init_def Let_def left_pad_replicate)

theorem File_init_id_path_witness:
  "length (str_shot (Shot_int 12)) \<le> 4
   \<and> File.id (File_init ''Aaron_Eckhart'' (Shot_int 12)) = ''Aaron_Eckhart_0012''
   \<and> File.path (File_init ''Aaron_Eckhart'' (Shot_int 12)) = ''Aaron_Eckhart/Aaron_Eckhart_0012''"
proof -
  have s: "str_int 12 = ''12''"
    by (simp add: str_int_def str_nat.simps digit_char_def)
  have l: "length (str_shot (Shot_int 12)) \<le> 4"
    by (simp add: s)
  have p: "left_pad 4 CHR ''0'' ''12'' = ''0012''"
    by (simp add: left_pad.simps)
  have i: "File.id (File_init ''Aaron_Eckhart'' (Shot_int 12)) = ''Aaron_Eckhart_0012''"
    using File_init_id_path [OF l, of "''Aaron_Eckhart''"] by (simp add: s p)
  have "File.path (File_init ''Aaron_Eckhart'' (Shot_int 12))
          = os_path_join ''Aaron_Eckhart'' ''Aaron_Eckhart_0012''"
    using File_init_id_path [OF l, of "''Aaron_Eckhart''"] i by simp
  then show ?thesis using l i
    by (simp add: os_path_join_def startswith_def endswith_def)
qed


subsection \<open>The fold rotation\<close>

lemma fold_fmt_values:
  "fold_fmt 1 = ''fold1''" "fold_fmt 2 = ''fold2''" "fold_fmt 3 = ''fold3''"
  "fold_fmt 4 = ''fold4''" "fold_fmt 5 = ''fold5''" "fold_fmt 6 = ''fold6''"
  "fold_fmt 7 = ''fold7''" "fold_fmt 8 = ''fold8''" "fold_fmt 9 = ''fold9''"
  "fold_fmt 10 = ''fold10''"
  by (simp_all add: fold_fmt_def str_int_def str_nat.simps digit_char_def)

lemma Database_eval_folds:
  "Database_eval ''fold1'' = Inr 1" "Database_eval ''fold2'' = Inr 2"
  "Database_eval ''fold3'' = Inr 3" "Database_eval ''fold4'' = Inr 4"
  "Database_eval ''fold5'' = Inr 5" "Database_eval ''fold6'' = Inr 6"
  "Database_eval ''fold7'' = Inr 7" "Database_eval ''fold8'' = Inr 8"
  "Database_eval ''fold9'' = Inr 9" "Database_eval ''fold10'' = Inr 10"
  by (simp_all add: Database_eval_def py_int_digits_def digit_of_def digit_table_def)

lemma int_1_10:
  "(k::int) \<in> {1..10} \<Longrightarrow>
     k = 1 \<or> k = 2 \<or> k = 3 \<or> k = 4 \<or> k = 5 \<or> k = 6 \<or> k = 7 \<or> k = 8 \<or> k = 9 \<or> k = 10"
  by simp arith

lemma fold_fmt_in_view2: "k \<in> {1..10} \<Longrightarrow> fold_fmt k \<in> set view2_folds"
  by (drule int_1_10) (auto simp: fold_fmt_values view2_folds_def)

lemma view2_folds_fmt: "p \<in> set view2_folds \<Longrightarrow> \<exists>k\<in>{1..10}. p = fold_fmt k"
  unfolding view2_folds_def
  apply simp
  apply (elim disjE)
  apply (simp_all only: fold_fmt_values [symmetric])
  by auto

lemma Database_eval_fold_fmt: "k \<in> {1..10} \<Longrightarrow> Database_eval (fold_fmt k) = Inr k"
  by (drule int_1_10) (auto simp: fold_fmt_values Database_eval_folds)

lemma upt_7: "[0..<7] = [0, 1, 2, 3, 4, 5, 6]"
  by (simp add: upt_rec)

lemma world_seven:
  assumes "k \<in> {1..10}"
  shows "Database_world_for (fold_fmt k) (Some ''sevenfolds'')
       = Inr (map (\<lambda>i. fold_fmt ((k + i) mod 10 + 1)) [0, 1, 2, 3, 4, 5, 6])"
  using assms
  by (simp add: Database_world_for_def Database_eval_fold_fmt m_subworld_counts_def upt_7)

lemma dev_two:
  assumes "k \<in> {1..10}"
  shows "Database_dev_for (fold_fmt k)
       = Inr [fold_fmt ((k + 7) mod 10 + 1), fold_fmt ((k + 8) mod 10 + 1)]"
  using assms by (simp add: Database_dev_for_def Database_eval_fold_fmt Database_dev_def)

text \<open>
  C8. For each of the ten fold protocols, the world set of \<^verbatim>\<open>sevenfolds\<close> has seven
  different folds, the development set has two, neither holds the protocol's own fold,
  the two share no fold, and together with the protocol's fold they are all ten folds.
\<close>

theorem fold_sets_partition:
  assumes "p \<in> set view2_folds"
  shows "\<exists>W D. Database_world_for p (Some ''sevenfolds'') = Inr W \<and> Database_dev_for p = Inr D
           \<and> length W = 7 \<and> distinct W \<and> length D = 2 \<and> distinct D
           \<and> set W \<inter> set D = {} \<and> p \<notin> set W \<and> p \<notin> set D
           \<and> set W \<union> set D \<union> {p} = set view2_folds"
proof -
  from assms obtain k where k: "k \<in> {1..10}" and p: "p = fold_fmt k"
    using view2_folds_fmt by blast
  from k have "k = 1 \<or> k = 2 \<or> k = 3 \<or> k = 4 \<or> k = 5 \<or> k = 6 \<or> k = 7 \<or> k = 8 \<or> k = 9 \<or> k = 10"
    by (rule int_1_10)
  then show ?thesis
    unfolding p world_seven [OF k] dev_two [OF k]
    by (elim disjE) (simp_all add: fold_fmt_values view2_folds_def, auto)
qed

theorem fold_sets_partition_witness:
  "''fold10'' \<in> set view2_folds
   \<and> Database_world_for ''fold10'' (Some ''sevenfolds'')
       = Inr [''fold1'', ''fold2'', ''fold3'', ''fold4'', ''fold5'', ''fold6'', ''fold7'']
   \<and> Database_dev_for ''fold10'' = Inr [''fold8'', ''fold9'']
   \<and> (\<exists>W D. Database_world_for ''fold10'' (Some ''sevenfolds'') = Inr W
          \<and> Database_dev_for ''fold10'' = Inr D
          \<and> set W \<inter> set D = {} \<and> set W \<union> set D \<union> {''fold10''} = set view2_folds)"
proof -
  have h: "''fold10'' \<in> set view2_folds"
    by (simp add: view2_folds_def)
  have k: "(10::int) \<in> {1..10}" by simp
  have w: "Database_world_for ''fold10'' (Some ''sevenfolds'')
       = Inr [''fold1'', ''fold2'', ''fold3'', ''fold4'', ''fold5'', ''fold6'', ''fold7'']"
    using world_seven [OF k] by (simp add: fold_fmt_values)
  have d: "Database_dev_for ''fold10'' = Inr [''fold8'', ''fold9'']"
    using dev_two [OF k] by (simp add: fold_fmt_values)
  from fold_sets_partition [OF h] have "\<exists>W D. Database_world_for ''fold10'' (Some ''sevenfolds'') = Inr W
          \<and> Database_dev_for ''fold10'' = Inr D
          \<and> set W \<inter> set D = {} \<and> set W \<union> set D \<union> {''fold10''} = set view2_folds"
    by blast
  with h w d show ?thesis by blast
qed


subsection \<open>The queries only read\<close>

lemma collect_session: "collect e k qs s = (r, s') \<Longrightarrow> s' = s"
proof (induction qs arbitrary: r s')
  case Nil
  then show ?case by simp
next
  case (Cons q qs)
  obtain rs s'' where c: "collect e k qs s = (rs, s'')"
    by (cases "collect e k qs s")
  from Cons.IH [OF c] have "s'' = s" .
  with Cons.prems c show ?case by (simp add: fetch_def)
qed

lemma assert_validity_Inr:
  "assert_validity self = Inr s \<Longrightarrow> self\<lparr>m_session := Some s\<rparr> = self"
  by (auto simp: assert_validity_def split: option.splits)

lemma clients_frame: "snd (clients self p g sw) = self"
  unfolding clients_def
  by (auto split: sum.splits prod.splits dest!: collect_session simp: assert_validity_Inr)

lemma models_frame: "snd (models self p g sw) = self"
  unfolding models_def
  by (auto split: sum.splits prod.splits dest!: collect_session simp: assert_validity_Inr)

lemma objects_frame: "snd (objects self p mi g pu sw wt) = self"
  unfolding objects_def
  by (auto split: sum.splits prod.splits dest!: collect_session simp: assert_validity_Inr)

lemma pairs_frame: "snd (pairs self p g c sw) = self"
  unfolding pairs_def
  by (auto split: sum.splits prod.splits dest!: collect_session simp: assert_validity_Inr)

lemma get_client_id_from_file_id_frame: "snd (get_client_id_from_file_id self i) = self"
  unfolding get_client_id_from_file_id_def
  by (auto split: sum.splits prod.splits option.splits
      simp: assert_validity_Inr count_q_def first_q_def Let_def)

lemma paths_frame: "snd (paths self i pre suf) = self"
  unfolding paths_def by (auto split: sum.splits)

lemma reverse_frame: "snd (reverse self ps) = self"
  unfolding reverse_def by (auto split: sum.splits)

text \<open>
  C4. Whatever the arguments and whether the call returns a list or raises, the database
  object and the tables behind its session are after the call what they were before it,
  for \<^verbatim>\<open>clients\<close>, \<^verbatim>\<open>models\<close>, \<^verbatim>\<open>objects\<close>, \<^verbatim>\<open>pairs\<close>, \<^verbatim>\<open>paths\<close>, \<^verbatim>\<open>reverse\<close> and
  \<^verbatim>\<open>get_client_id_from_file_id\<close>.
\<close>

theorem queries_leave_database_unchanged:
  "snd (clients self p g sw) = self
   \<and> snd (models self p g sw) = self
   \<and> snd (objects self p mi g pu sw wt) = self
   \<and> snd (pairs self p g c sw) = self
   \<and> snd (paths self ids pre suf) = self
   \<and> snd (reverse self ps) = self
   \<and> snd (get_client_id_from_file_id self i) = self"
  by (simp add: clients_frame models_frame objects_frame pairs_frame paths_frame
      reverse_frame get_client_id_from_file_id_frame)


subsection \<open>The example database\<close>

lemma example_db_session: "m_session example_db = Some example_tables"
  by (simp add: example_db_def Database_init_def connect_def)

lemma example_schema_ok: "schema_ok example_tables"
  by (simp add: schema_ok_def primary_key_def foreign_key_def example_tables_def)

lemma example_db_valid: "is_valid example_db"
  by (simp add: is_valid_def example_db_session)


subsection \<open>Arguments outside their valid sets\<close>

lemma check_single_outside: "outside v valid \<Longrightarrow> Database_check_single v valid = Inl ValueError"
  by (auto simp: outside_def Database_check_single_def split: pyval.splits)

lemma check_elements_iff: "check_elements xs valid = (\<not> list_ex (\<lambda>v. outside v valid) xs)"
  by (induction xs) (auto simp: outside_def)

lemma check_validity_invalid:
  "has_invalid_element a valid \<Longrightarrow> Database_check_validity a valid = Inl RuntimeError"
  by (cases a) (auto simp: has_invalid_element_def Database_check_validity.simps check_elements_iff split: if_splits)

lemma check_subworld_invalid: "invalid_subworld sw \<Longrightarrow> check_subworld sw = Inl ValueError"
  by (cases sw) (auto simp: invalid_subworld_def check_subworld_def check_single_outside)

lemma is_valid_assert: "is_valid self \<Longrightarrow> \<exists>t. assert_validity self = Inr t"
  by (auto simp: is_valid_def assert_validity_def split: option.splits)

lemma clients_invalid:
  assumes "is_valid self" "outside p m_valid_protocols \<or> has_invalid_element g m_valid_groups \<or> invalid_subworld sw"
  shows "\<exists>e. fst (clients self p g sw) = Inl e"
  using assms(2) is_valid_assert [OF assms(1)]
  unfolding clients_def
  by (auto simp: check_single_outside check_validity_invalid check_subworld_invalid split: sum.splits)

lemma models_invalid:
  assumes "is_valid self" "outside p m_valid_protocols \<or> has_invalid_element g m_valid_groups \<or> invalid_subworld sw"
  shows "\<exists>e. fst (models self p g sw) = Inl e"
  using assms(2) is_valid_assert [OF assms(1)]
  unfolding models_def
  by (auto simp: check_single_outside check_validity_invalid check_subworld_invalid split: sum.splits)

lemma objects_invalid:
  assumes "is_valid self" "outside p m_valid_protocols \<or> has_invalid_element g m_valid_groups \<or> has_invalid_element pu m_valid_purposes \<or> invalid_subworld sw"
  shows "\<exists>e. fst (objects self p mi g pu sw wt) = Inl e"
  using assms(2) is_valid_assert [OF assms(1)]
  unfolding objects_def
  by (auto simp: check_single_outside check_validity_invalid check_subworld_invalid split: sum.splits)

lemma pairs_invalid:
  assumes "is_valid self" "outside p m_valid_protocols \<or> has_invalid_element g m_valid_groups \<or> has_invalid_element c m_valid_classes \<or> invalid_subworld sw"
  shows "\<exists>e. fst (pairs self p g c sw) = Inl e"
  using assms(2) is_valid_assert [OF assms(1)]
  unfolding pairs_def
  by (auto simp: check_single_outside check_validity_invalid check_subworld_invalid split: sum.splits)

text \<open>
  C2. On a database with an open session, \<^verbatim>\<open>clients\<close>, \<^verbatim>\<open>models\<close>, \<^verbatim>\<open>objects\<close> and
  \<^verbatim>\<open>pairs\<close> raise, and return nothing, as soon as the protocol is not one of the eleven
  protocol names, or an element of the groups (for \<^verbatim>\<open>objects\<close> also of the purposes, for
  \<^verbatim>\<open>pairs\<close> also of the classes) is outside its valid set, or the sub-world is neither
  \<^verbatim>\<open>None\<close> nor one of the seven sub-world names.
\<close>

theorem invalid_arguments_raise:
  assumes "is_valid self"
  shows "(outside p m_valid_protocols \<or> has_invalid_element g m_valid_groups \<or> invalid_subworld sw
            \<longrightarrow> (\<exists>e. fst (clients self p g sw) = Inl e) \<and> (\<exists>e. fst (models self p g sw) = Inl e))
       \<and> (outside p m_valid_protocols \<or> has_invalid_element g m_valid_groups
            \<or> has_invalid_element pu m_valid_purposes \<or> invalid_subworld sw
            \<longrightarrow> (\<exists>e. fst (objects self p mi g pu sw wt) = Inl e))
       \<and> (outside p m_valid_protocols \<or> has_invalid_element g m_valid_groups
            \<or> has_invalid_element c m_valid_classes \<or> invalid_subworld sw
            \<longrightarrow> (\<exists>e. fst (pairs self p g c sw) = Inl e))"
  using clients_invalid [OF assms] models_invalid [OF assms] objects_invalid [OF assms]
    pairs_invalid [OF assms]
  by blast

theorem invalid_arguments_raise_witness:
  "is_valid example_db
   \<and> outside (PStr ''fold11'') m_valid_protocols
   \<and> has_invalid_element (PSeq [PStr ''dev'', PStr ''test'']) m_valid_groups
   \<and> has_invalid_element (PStr ''enroll'') m_valid_purposes
   \<and> has_invalid_element (PSeq [PNone]) m_valid_classes
   \<and> invalid_subworld (PStr ''eightfolds'')
   \<and> (\<exists>e. fst (clients example_db (PStr ''fold11'') PNone PNone) = Inl e)
   \<and> (\<exists>e. fst (models example_db (PStr ''fold1'') (PSeq [PStr ''dev'', PStr ''test'']) PNone) = Inl e)
   \<and> (\<exists>e. fst (objects example_db (PStr ''fold1'') PNone PNone (PStr ''enroll'') PNone
               (PStr ''restricted'')) = Inl e)
   \<and> (\<exists>e. fst (pairs example_db (PStr ''fold1'') PNone (PSeq [PNone]) PNone) = Inl e)
   \<and> (\<exists>e. fst (pairs example_db (PStr ''fold1'') PNone PNone (PStr ''eightfolds'')) = Inl e)"
proof -
  have p: "outside (PStr ''fold11'') m_valid_protocols"
    by (simp add: outside_def m_valid_protocols_def)
  have g: "has_invalid_element (PSeq [PStr ''dev'', PStr ''test'']) m_valid_groups"
    by (simp add: has_invalid_element_def outside_def m_valid_groups_def)
  have pu: "has_invalid_element (PStr ''enroll'') m_valid_purposes"
    by (simp add: has_invalid_element_def outside_def m_valid_purposes_def)
  have c: "has_invalid_element (PSeq [PNone]) m_valid_classes"
    by (simp add: has_invalid_element_def outside_def m_valid_classes_def)
  have sw: "invalid_subworld (PStr ''eightfolds'')"
    by (simp add: invalid_subworld_def outside_def m_subworld_counts_def)
  note t = invalid_arguments_raise [OF example_db_valid]
  from p t [of "PStr ''fold11''" PNone PNone]
  have 1: "\<exists>e. fst (clients example_db (PStr ''fold11'') PNone PNone) = Inl e" by blast
  from g t [of "PStr ''fold1''" "PSeq [PStr ''dev'', PStr ''test'']" PNone]
  have 2: "\<exists>e. fst (models example_db (PStr ''fold1'') (PSeq [PStr ''dev'', PStr ''test'']) PNone) = Inl e"
    by blast
  from pu t [of "PStr ''fold1''" PNone PNone "PStr ''enroll''" PNone "PStr ''restricted''"]
  have 3: "\<exists>e. fst (objects example_db (PStr ''fold1'') PNone PNone (PStr ''enroll'') PNone
               (PStr ''restricted'')) = Inl e"
    by blast
  from c t [of "PStr ''fold1''" PNone PNone PNone PNone PNone "PSeq [PNone]"]
  have 4: "\<exists>e. fst (pairs example_db (PStr ''fold1'') PNone (PSeq [PNone]) PNone) = Inl e"
    by blast
  from sw t [of "PStr ''fold1''" PNone "PStr ''eightfolds''" PNone PNone PNone PNone]
  have 5: "\<exists>e. fst (pairs example_db (PStr ''fold1'') PNone PNone (PStr ''eightfolds'')) = Inl e"
    by blast
  from example_db_valid p g pu c sw 1 2 3 4 5 show ?thesis by blast
qed


subsection \<open>A database file that is not there\<close>

lemma invalid_db: "assert_validity (connect None self) = Inl RuntimeError"
  by (simp add: connect_def assert_validity_def)

text \<open>
  C3. After \<^verbatim>\<open>connect\<close> (which \<^verbatim>\<open>__init__\<close> calls) has found no file at the expected
  location, each of the eight public query methods raises \<^verbatim>\<open>RuntimeError\<close>, whatever
  its arguments.
\<close>

theorem absent_file_raises:
  "fst (clients (connect None self) p g sw) = Inl RuntimeError
   \<and> fst (models (connect None self) p g sw) = Inl RuntimeError
   \<and> fst (objects (connect None self) p mi g pu sw wt) = Inl RuntimeError
   \<and> fst (pairs (connect None self) p g c sw) = Inl RuntimeError
   \<and> fst (paths (connect None self) ids pre suf) = Inl RuntimeError
   \<and> fst (reverse (connect None self) ps) = Inl RuntimeError
   \<and> fst (get_client_id_from_file_id (connect None self) i) = Inl RuntimeError
   \<and> fst (get_client_id_from_model_id (connect None self) i) = Inl RuntimeError"
  by (simp add: clients_def models_def objects_def pairs_def paths_def reverse_def
      get_client_id_from_file_id_def get_client_id_from_model_id_def invalid_db)


subsection \<open>The pairs of a fold protocol\<close>

lemma unique_list_distinct:
  "distinct (map key xs) \<Longrightarrow> set (map key xs) \<inter> set seen = {} \<Longrightarrow> unique_list key seen xs = xs"
  by (induction xs arbitrary: seen) auto

lemma no_match: "k \<notin> set (map key xs) \<Longrightarrow> concat (map (\<lambda>x. if key x = k then g else []) xs) = []"
  by (induction xs) auto

lemma single_match:
  "distinct (map key xs) \<Longrightarrow> k \<in> set (map key xs) \<Longrightarrow>
     concat (map (\<lambda>x. if key x = k then g else []) xs) = g"
proof (induction xs)
  case Nil
  then show ?case by simp
next
  case (Cons x xs)
  show ?case
  proof (cases "key x = k")
    case True
    with Cons.prems have "k \<notin> set (map key xs)" by auto
    with True show ?thesis by (simp add: no_match del: set_map)
  next
    case False
    with Cons show ?thesis by auto
  qed
qed

lemma concat_if_filter: "concat (map (\<lambda>x. if P x then [x] else []) xs) = filter P xs"
  by (induction xs) auto

lemma default_query_schema:
  assumes "schema_ok t"
  shows "default_query pr t = filter (\<lambda>p. pr (Pair.protocol p)) (pair t)"
proof -
  have d: "distinct (map File.id (file t))"
    using assms by (simp add: schema_ok_def primary_key_def)
  have "\<And>p. p \<in> set (pair t) \<Longrightarrow>
      concat (map (\<lambda>File1. if File.id File1 = Pair.enrol_file_id p
            then concat (map (\<lambda>File2. if File.id File2 = Pair.probe_file_id p
                   then if pr (Pair.protocol p) then [p] else [] else []) (file t))
            else []) (file t))
      = (if pr (Pair.protocol p) then [p] else [])"
  proof -
    fix p assume p: "p \<in> set (pair t)"
    from p assms have e: "Pair.enrol_file_id p \<in> set (map File.id (file t))"
      and q: "Pair.probe_file_id p \<in> set (map File.id (file t))"
      by (auto simp: schema_ok_def foreign_key_def list_all_iff)
    show "concat (map (\<lambda>File1. if File.id File1 = Pair.enrol_file_id p
            then concat (map (\<lambda>File2. if File.id File2 = Pair.probe_file_id p
                   then if pr (Pair.protocol p) then [p] else [] else []) (file t))
            else []) (file t))
      = (if pr (Pair.protocol p) then [p] else [])"
      by (simp only: single_match [OF d q] single_match [OF d e])
  qed
  then have "default_query pr t = concat (map (\<lambda>p. if pr (Pair.protocol p) then [p] else []) (pair t))"
    unfolding default_query_def by (simp cong: map_cong)
  then show ?thesis by (simp add: concat_if_filter)
qed

lemma fetch_default_query:
  assumes "schema_ok t"
  shows "fetch (\<lambda>p. p) Pair.id (default_query pr) t = (filter (\<lambda>p. pr (Pair.protocol p)) (pair t), t)"
proof -
  have "distinct (map Pair.id (pair t))"
    using assms by (simp add: schema_ok_def primary_key_def)
  then have "distinct (map Pair.id (filter (\<lambda>p. pr (Pair.protocol p)) (pair t)))"
    by (rule distinct_map_filter)
  then show ?thesis
    by (simp add: fetch_def default_query_schema [OF assms] unique_list_distinct)
qed

lemma check_validity_falsy:
  "\<not> truthy a \<Longrightarrow> Database_check_validity a valid = Inr (map PStr valid)"
  by (simp add: Database_check_validity.simps)

lemma check_validity_str:
  "s \<noteq> [] \<Longrightarrow> Database_check_validity (PStr s) valid = Database_check_validity (PSeq [PStr s]) valid"
  by (subst Database_check_validity.simps) simp

lemma check_elements_valid: "check_elements (map PStr valid) valid"
  by (simp add: check_elements_iff list_ex_iff outside_def)

lemma check_validity_full:
  "Database_check_validity (PSeq (map PStr valid)) valid = Inr (map PStr valid)"
  by (simp add: Database_check_validity.simps check_elements_valid)

lemma check_validity_one:
  "s \<noteq> [] \<Longrightarrow> s \<in> set valid \<Longrightarrow> Database_check_validity (PStr s) valid = Inr [PStr s]"
  by (simp add: check_validity_str) (simp add: Database_check_validity.simps)

lemma filter_classes_all: "filter_classes (map PStr m_valid_classes) q = q"
  by (simp add: filter_classes_def m_valid_classes_def)

lemma check_single_fold:
  "k \<in> {1..10} \<Longrightarrow> Database_check_single (PStr (fold_fmt k)) m_valid_protocols = Inr (fold_fmt k)"
  by (drule int_1_10) (auto simp: Database_check_single_def m_valid_protocols_def fold_fmt_values)

lemma fold_fmt_not_view1: "k \<in> {1..10} \<Longrightarrow> fold_fmt k \<noteq> ''view1''"
  by (drule int_1_10) (auto simp: fold_fmt_values)

lemma check_subworld_ok:
  "sw = PNone \<or> sw \<in> set (map PStr (map fst m_subworld_counts)) \<Longrightarrow> \<exists>sw'. check_subworld sw = Inr sw'"
  by (auto simp: check_subworld_def Database_check_single_def split: pyval.splits)

lemma check_subworld_str:
  "map_of m_subworld_counts s = Some n \<Longrightarrow> check_subworld (PStr s) = Inr (Some s)"
  by (auto simp: check_subworld_def Database_check_single_def dest: map_of_SomeD intro: rev_image_eqI)

lemma world_count:
  assumes "k \<in> {1..10}" "map_of m_subworld_counts s = Some n"
  shows "Database_world_for (fold_fmt k) (Some s)
       = Inr (map (\<lambda>i. fold_fmt ((k + int i) mod 10 + 1)) [0 ..< n])"
  using assms by (simp add: Database_world_for_def Database_eval_fold_fmt comp_def)

lemma pairs_run:
  assumes "m_session self = Some t" "schema_ok t" "k \<in> {1..10}" "g \<noteq> []" "g \<in> set m_valid_groups"
    and "check_subworld sw = Inr sw'"
    and "view2_queries (fold_fmt k) [PStr g] sw' (\<lambda>pr. [default_query pr]) (\<lambda>pr. [default_query pr])
                   (\<lambda>pr. [default_query pr]) = Inr [default_query pr]"
  shows "fst (pairs self (PStr (fold_fmt k)) (PStr g) PNone sw) = Inr (filter (\<lambda>p. pr (Pair.protocol p)) (pair t))"
  using assms
  by (simp add: pairs_def assert_validity_def check_single_fold fold_fmt_not_view1
      check_validity_one check_validity_falsy filter_classes_all fetch_default_query)

text \<open>
  C1. On a database with an open session whose tables conform to the declared schema, for
  the protocol \<^verbatim>\<open>foldk\<close> with \<open>k\<close> from 1 to 10 and the classes left at their default:
  with the group \<^verbatim>\<open>eval\<close>, \<^verbatim>\<open>pairs\<close> returns the rows of the pair table whose protocol is
  \<^verbatim>\<open>foldk\<close>; with \<^verbatim>\<open>dev\<close>, those whose protocol is the fold numbered
  \<open>(k + 7) mod 10 + 1\<close> or \<open>(k + 8) mod 10 + 1\<close> (for both, the sub-world being
  \<^verbatim>\<open>None\<close> or any valid name); with \<^verbatim>\<open>world\<close> and a sub-world of count \<open>n\<close>, those
  whose protocol is a fold numbered \<open>(k + i) mod 10 + 1\<close> for some \<open>i < n\<close>. The rows
  come in the order of the table, each once. (The query joins each pair with its two
  files; the foreign keys of the schema see to it that both are there.)
\<close>

theorem pairs_fold_protocols:
  assumes "m_session self = Some t" and "schema_ok t" and "k \<in> {1..10}"
  shows "(sw = PNone \<or> sw \<in> set (map PStr (map fst m_subworld_counts)) \<longrightarrow>
            fst (pairs self (PStr (fold_fmt k)) (PStr ''eval'') PNone sw)
              = Inr [p \<leftarrow> pair t. Pair.protocol p = fold_fmt k]
          \<and> fst (pairs self (PStr (fold_fmt k)) (PStr ''dev'') PNone sw)
              = Inr [p \<leftarrow> pair t. Pair.protocol p \<in>
                      {fold_fmt ((k + 7) mod 10 + 1), fold_fmt ((k + 8) mod 10 + 1)}])
       \<and> (map_of m_subworld_counts s = Some n \<longrightarrow>
            fst (pairs self (PStr (fold_fmt k)) (PStr ''world'') PNone (PStr s))
              = Inr [p \<leftarrow> pair t. Pair.protocol p \<in>
                      (\<lambda>i. fold_fmt ((k + int i) mod 10 + 1)) ` {0 ..< n}])"
proof (intro conjI impI)
  assume "sw = PNone \<or> sw \<in> set (map PStr (map fst m_subworld_counts))"
  then obtain sw' where sw': "check_subworld sw = Inr sw'"
    using check_subworld_ok by blast
  have "view2_queries (fold_fmt k) [PStr ''eval''] sw' (\<lambda>pr. [default_query pr]) (\<lambda>pr. [default_query pr])
                   (\<lambda>pr. [default_query pr]) = Inr [default_query (col_eq (fold_fmt k))]"
    by (simp add: view2_queries_def)
  from pairs_run [OF assms _ _ sw' this]
  show "fst (pairs self (PStr (fold_fmt k)) (PStr ''eval'') PNone sw)
              = Inr [p \<leftarrow> pair t. Pair.protocol p = fold_fmt k]"
    by (simp add: m_valid_groups_def col_eq_def)
  have "view2_queries (fold_fmt k) [PStr ''dev''] sw' (\<lambda>pr. [default_query pr]) (\<lambda>pr. [default_query pr])
                   (\<lambda>pr. [default_query pr])
        = Inr [default_query (col_in [fold_fmt ((k + 7) mod 10 + 1), fold_fmt ((k + 8) mod 10 + 1)])]"
    by (simp add: view2_queries_def dev_two [OF assms(3)])
  from pairs_run [OF assms _ _ sw' this]
  show "fst (pairs self (PStr (fold_fmt k)) (PStr ''dev'') PNone sw)
              = Inr [p \<leftarrow> pair t. Pair.protocol p \<in>
                      {fold_fmt ((k + 7) mod 10 + 1), fold_fmt ((k + 8) mod 10 + 1)}]"
    by (simp add: m_valid_groups_def col_in_def)
next
  assume n: "map_of m_subworld_counts s = Some n"
  have "view2_queries (fold_fmt k) [PStr ''world''] (Some s) (\<lambda>pr. [default_query pr]) (\<lambda>pr. [default_query pr])
                   (\<lambda>pr. [default_query pr])
        = Inr [default_query (col_in (map (\<lambda>i. fold_fmt ((k + int i) mod 10 + 1)) [0 ..< n]))]"
    by (simp add: view2_queries_def world_count [OF assms(3) n])
  from pairs_run [OF assms _ _ check_subworld_str [OF n] this]
  show "fst (pairs self (PStr (fold_fmt k)) (PStr ''world'') PNone (PStr s))
              = Inr [p \<leftarrow> pair t. Pair.protocol p \<in>
                      (\<lambda>i. fold_fmt ((k + int i) mod 10 + 1)) ` {0 ..< n}]"
    by (simp add: m_valid_groups_def col_in_def)
qed

theorem pairs_fold_protocols_witness:
  "m_session example_db = Some example_tables \<and> schema_ok example_tables \<and> (10::int) \<in> {1..10}
   \<and> fst (pairs example_db (PStr ''fold10'') (PStr ''eval'') PNone (PStr ''sevenfolds''))
       = Inr [\<lparr>Pair.id = 1, protocol = ''fold10'', enrol_file_id = ''Ann_0001'',
                 probe_file_id = ''Ann_0002'', is_match = True\<rparr>]
   \<and> fst (pairs example_db (PStr ''fold10'') (PStr ''dev'') PNone (PStr ''sevenfolds''))
       = Inr [\<lparr>Pair.id = 2, protocol = ''fold8'', enrol_file_id = ''Ann_0001'',
                 probe_file_id = ''Bob_0001'', is_match = False\<rparr>]
   \<and> map_of m_subworld_counts ''twofolds'' = Some 2
   \<and> fst (pairs example_db (PStr ''fold10'') (PStr ''world'') PNone (PStr ''twofolds''))
       = Inr [\<lparr>Pair.id = 3, protocol = ''fold2'', enrol_file_id = ''Bob_0001'',
                 probe_file_id = ''Ann_0002'', is_match = False\<rparr>]"
proof -
  have k: "(10::int) \<in> {1..10}" by simp
  have n: "map_of m_subworld_counts ''twofolds'' = Some 2"
    by (simp add: m_subworld_counts_def)
  have sw: "PStr ''sevenfolds'' \<in> set (map PStr (map fst m_subworld_counts))"
    by (simp add: m_subworld_counts_def)
  have i: "{0 ..< 2::nat} = {0, 1}" by auto
  note w = pairs_fold_protocols [OF example_db_session example_schema_ok k,
      of "PStr ''sevenfolds''" "''twofolds''" 2]
  from w sw n show ?thesis
    by (simp add: example_db_session example_schema_ok fold_fmt_values i)
      (simp add: example_tables_def)
qed


subsection \<open>Default and single-string arguments\<close>

lemma falsy_cases: "a \<in> {PNone, PSeq [], PStr []} \<Longrightarrow> \<not> truthy a"
  by auto

lemma check_validity_default:
  "a \<in> {PNone, PSeq [], PStr []} \<Longrightarrow>
     Database_check_validity a valid = Database_check_validity (PSeq (map PStr valid)) valid"
  by (simp only: check_validity_falsy [OF falsy_cases] check_validity_full)

text \<open>
  C9, as the code has it. For \<^verbatim>\<open>clients\<close>, \<^verbatim>\<open>models\<close>, \<^verbatim>\<open>objects\<close> and \<^verbatim>\<open>pairs\<close>:
  \<^verbatim>\<open>None\<close>, an empty sequence or the empty string for groups, purposes or classes gives
  what the full tuple of valid values gives, and a non-empty string gives what the
  one-element tuple holding it gives (the result and the database after the call alike).
\<close>

theorem default_and_single_arguments:
  "(a \<in> {PNone, PSeq [], PStr []} \<longrightarrow>
      clients self p a sw = clients self p (PSeq (map PStr m_valid_groups)) sw
    \<and> models self p a sw = models self p (PSeq (map PStr m_valid_groups)) sw
    \<and> objects self p mi a pu sw wt = objects self p mi (PSeq (map PStr m_valid_groups)) pu sw wt
    \<and> objects self p mi g a sw wt = objects self p mi g (PSeq (map PStr m_valid_purposes)) sw wt
    \<and> pairs self p a c sw = pairs self p (PSeq (map PStr m_valid_groups)) c sw
    \<and> pairs self p g a sw = pairs self p g (PSeq (map PStr m_valid_classes)) sw)
   \<and> (s \<noteq> [] \<longrightarrow>
      clients self p (PStr s) sw = clients self p (PSeq [PStr s]) sw
    \<and> models self p (PStr s) sw = models self p (PSeq [PStr s]) sw
    \<and> objects self p mi (PStr s) pu sw wt = objects self p mi (PSeq [PStr s]) pu sw wt
    \<and> objects self p mi g (PStr s) sw wt = objects self p mi g (PSeq [PStr s]) sw wt
    \<and> pairs self p (PStr s) c sw = pairs self p (PSeq [PStr s]) c sw
    \<and> pairs self p g (PStr s) sw = pairs self p g (PSeq [PStr s]) sw)"
  unfolding clients_def models_def objects_def pairs_def
  by (intro conjI impI) (simp_all only: check_validity_default check_validity_str simp_thms)

theorem default_and_single_arguments_witness:
  "PNone \<in> {PNone, PSeq [], PStr []} \<and> ''eval'' \<noteq> []
   \<and> clients example_db (PStr ''view1'') PNone PNone
       = clients example_db (PStr ''view1'') (PSeq (map PStr m_valid_groups)) PNone
   \<and> fst (clients example_db (PStr ''view1'') PNone PNone) = Inr [\<lparr>Client.id = ''Ann''\<rparr>]
   \<and> pairs example_db (PStr ''fold10'') (PStr ''eval'') PNone PNone
       = pairs example_db (PStr ''fold10'') (PSeq [PStr ''eval'']) PNone PNone
   \<and> fst (pairs example_db (PStr ''fold10'') (PSeq [PStr ''eval'']) PNone PNone)
       = Inr [\<lparr>Pair.id = 1, protocol = ''fold10'', enrol_file_id = ''Ann_0001'',
                 probe_file_id = ''Ann_0002'', is_match = True\<rparr>]"
proof -
  have a: "PNone \<in> {PNone, PSeq [], PStr []}" by simp
  have s: "''eval'' \<noteq> []" by simp
  have 1: "clients example_db (PStr ''view1'') PNone PNone
       = clients example_db (PStr ''view1'') (PSeq (map PStr m_valid_groups)) PNone"
    using default_and_single_arguments [of PNone example_db "PStr ''view1''" PNone] a by blast
  have 2: "pairs example_db (PStr ''fold10'') (PStr ''eval'') PNone PNone
       = pairs example_db (PStr ''fold10'') (PSeq [PStr ''eval'']) PNone PNone"
    using default_and_single_arguments [of _ example_db "PStr ''fold10''" PNone _ _ _ _ PNone "''eval''"] s
    by blast
  have 3: "fst (clients example_db (PStr ''view1'') PNone PNone) = Inr [\<lparr>Client.id = ''Ann''\<rparr>]"
    by code_simp
  have 4: "fst (pairs example_db (PStr ''fold10'') (PSeq [PStr ''eval'']) PNone PNone)
       = Inr [\<lparr>Pair.id = 1, protocol = ''fold10'', enrol_file_id = ''Ann_0001'',
                 probe_file_id = ''Ann_0002'', is_match = True\<rparr>]"
    by code_simp
  from a s 1 2 3 4 show ?thesis by blast
qed

text \<open>
  C9 as it is worded fails for the empty string: it is a single string, yet it is not
  treated as the one-element tuple holding it. With \<^verbatim>\<open>groups=''\<close> the clients of all
  groups come back; with \<^verbatim>\<open>groups=('',)\<close> the call raises.
\<close>

theorem empty_string_counterexample:
  "fst (clients example_db (PStr ''view1'') (PStr '''') PNone)
     = Inr [\<lparr>Client.id = ''Ann''\<rparr>]
   \<and> fst (clients example_db (PStr ''view1'') (PSeq [PStr '''']) PNone) = Inl RuntimeError"
  by code_simp


subsection \<open>Missing annotation files\<close>

lemma for_each_skip:
  assumes "\<And>x s. \<not> P x \<Longrightarrow> body x s = Inr s"
  shows "for_each body xs s = for_each body (filter P xs) s"
proof (induction xs arbitrary: s)
  case Nil
  show ?case by simp
next
  case (Cons x xs)
  show ?case
  proof (cases "P x")
    case True
    then show ?thesis by (simp add: Cons.IH split: sum.splits)
  next
    case False
    then show ?thesis by (simp add: assms Cons.IH)
  qed
qed

lemma add_annotations_file_missing:
  "\<not> os_path_exists fs (make_path f d (Some ext)) \<Longrightarrow>
     add_annotations_file fs d ext ty v f s = Inr s"
  by (simp add: add_annotations_file_def)

lemma add_annotations_loop:
  assumes "list_all (\<lambda>f. not_a_directory (fs (make_path f d (Some ext)))) fl"
  shows "for_each (add_annotations_file fs d ext ty (Some v)) fl s
       = Inr (s\<lparr>annotation := annotation s @ annotation_rows fs d ext ty fl\<rparr>)"
  using assms
proof (induction fl arbitrary: s)
  case Nil
  show ?case by (simp add: annotation_rows_def)
next
  case (Cons f fl)
  from Cons.prems have nd: "not_a_directory (fs (make_path f d (Some ext)))"
    and rest: "list_all (\<lambda>f. not_a_directory (fs (make_path f d (Some ext)))) fl"
    by simp_all
  have rows: "annotation_rows fs d ext ty (f # fl)
      = (case fs (make_path f d (Some ext)) of
           Some (Regular c) \<Rightarrow> [Annotation (File.id f) ty (universal_newlines c)]
         | _ \<Rightarrow> []) @ annotation_rows fs d ext ty fl"
    by (simp add: annotation_rows_def)
  show ?case
  proof (cases "fs (make_path f d (Some ext))")
    case None
    then have "add_annotations_file fs d ext ty (Some v) f s = Inr s"
      by (simp add: add_annotations_file_def os_path_exists_def)
    with None show ?thesis
      by (simp add: Cons.IH [OF rest] rows)
  next
    case (Some n)
    with nd obtain c where c: "n = Regular c"
      by (cases n) (simp_all add: not_a_directory_def)
    with Some have "add_annotations_file fs d ext ty (Some v) f s
        = Inr (s\<lparr>annotation := annotation s @ [Annotation (File.id f) ty (universal_newlines c)]\<rparr>)"
      by (simp add: add_annotations_file_def os_path_exists_def verbose_gt_def open_read_def
          add_Annotation_def)
    with Some c show ?thesis
      by (simp add: Cons.IH [OF rest] rows)
  qed
qed

lemma flush_cases: "flush s = Inr s \<or> flush s = Inl IntegrityError"
  by (simp add: flush_def)

text \<open>
  C7. A file whose annotation file does not exist is passed over, the session left as it
  was; the whole of \<^verbatim>\<open>add_annotations\<close> is the flush it begins with and then the run
  over just the files whose annotation file exists, so a missing one neither ends the
  import nor causes anything else; and when no annotation path is a directory (and
  \<^verbatim>\<open>verbose\<close> is a number) nothing but that flush can end it: once the flush is through,
  exactly one row is added for each annotation file that is there.
\<close>

theorem add_annotations_skips_missing:
  "(\<not> os_path_exists fs (make_path f d (Some ext)) \<longrightarrow>
       add_annotations_file fs d ext ty vb f s = Inr s)
   \<and> add_annotations fs s d ext ty vb
       = (case flush s of
            Inl e \<Rightarrow> Inl e
          | Inr s \<Rightarrow>
              for_each (add_annotations_file fs d ext ty vb)
                (filter (\<lambda>f. os_path_exists fs (make_path f d (Some ext))) (file s)) s)
   \<and> (list_all (\<lambda>f. not_a_directory (fs (make_path f d (Some ext)))) (file s) \<longrightarrow>
       add_annotations fs s d ext ty (Some v)
         = (case flush s of
              Inl e \<Rightarrow> Inl e
            | Inr s \<Rightarrow>
                Inr (s\<lparr>annotation := annotation s @ annotation_rows fs d ext ty (file s)\<rparr>)))"
proof (intro conjI impI)
  assume "\<not> os_path_exists fs (make_path f d (Some ext))"
  then show "add_annotations_file fs d ext ty vb f s = Inr s"
    by (rule add_annotations_file_missing)
next
  have "\<And>s. for_each (add_annotations_file fs d ext ty vb) (file s) s
      = for_each (add_annotations_file fs d ext ty vb)
           (filter (\<lambda>f. os_path_exists fs (make_path f d (Some ext))) (file s)) s"
    by (rule for_each_skip) (simp add: add_annotations_file_missing)
  then show "add_annotations fs s d ext ty vb
       = (case flush s of
            Inl e \<Rightarrow> Inl e
          | Inr s \<Rightarrow>
              for_each (add_annotations_file fs d ext ty vb)
                (filter (\<lambda>f. os_path_exists fs (make_path f d (Some ext))) (file s)) s)"
    using flush_cases [of s] by (auto simp: add_annotations_def)
next
  assume "list_all (\<lambda>f. not_a_directory (fs (make_path f d (Some ext)))) (file s)"
  then have "for_each (add_annotations_file fs d ext ty (Some v)) (file s) s
       = Inr (s\<lparr>annotation := annotation s @ annotation_rows fs d ext ty (file s)\<rparr>)"
    by (rule add_annotations_loop)
  then show "add_annotations fs s d ext ty (Some v)
         = (case flush s of
              Inl e \<Rightarrow> Inl e
            | Inr s \<Rightarrow>
                Inr (s\<lparr>annotation := annotation s @ annotation_rows fs d ext ty (file s)\<rparr>))"
    using flush_cases [of s] by (auto simp: add_annotations_def)
qed

lemma example_run:
  "create example_filename File.id example_args example_fs No_directory
     = (Inr (), Db_file example_result)"
  by code_simp

theorem add_annotations_skips_missing_witness:
  "\<not> os_path_exists example_fs
        (make_path (File_init ''Ann'' (Shot_int 1)) (Some ''/ann'') (Some ''.jpg.pts''))
   \<and> add_annotations_file example_fs (Some ''/ann'') ''.jpg.pts'' ''funneled'' None
        (File_init ''Ann'' (Shot_int 1)) example_tables = Inr example_tables
   \<and> list_all (\<lambda>f. not_a_directory (example_fs (make_path f (Some ''/ann'') (Some ''.jpg.pts''))))
        (file example_tables)
   \<and> map File.id (filter (\<lambda>f. os_path_exists example_fs
                 (make_path f (Some ''/ann'') (Some ''.jpg.pts''))) (file example_tables))
        = [''Ann_0002'']
   \<and> add_annotations example_fs example_tables (Some ''/ann'') ''.jpg.pts'' ''funneled'' (Some 1)
        = Inr (example_tables\<lparr>annotation :=
                 [Annotation ''Ann_0002'' ''funneled'' (''10 20'' @ nl)]\<rparr>)"
proof -
  have m: "\<not> os_path_exists example_fs
        (make_path (File_init ''Ann'' (Shot_int 1)) (Some ''/ann'') (Some ''.jpg.pts''))"
    by code_simp
  have d: "list_all (\<lambda>f. not_a_directory (example_fs (make_path f (Some ''/ann'') (Some ''.jpg.pts''))))
        (file example_tables)"
    by code_simp
  have e: "map File.id (filter (\<lambda>f. os_path_exists example_fs
                 (make_path f (Some ''/ann'') (Some ''.jpg.pts''))) (file example_tables))
        = [''Ann_0002'']"
    by code_simp
  have r: "annotation example_tables
        @ annotation_rows example_fs (Some ''/ann'') ''.jpg.pts'' ''funneled'' (file example_tables)
      = [Annotation ''Ann_0002'' ''funneled'' (''10 20'' @ nl)]"
    by code_simp
  have k: "flush example_tables = Inr example_tables"
    by code_simp
  note t = add_annotations_skips_missing [of example_fs "File_init ''Ann'' (Shot_int 1)"
      "Some ''/ann''" "''.jpg.pts''" "''funneled''" None example_tables 1]
  from t m have 1: "add_annotations_file example_fs (Some ''/ann'') ''.jpg.pts'' ''funneled'' None
        (File_init ''Ann'' (Shot_int 1)) example_tables = Inr example_tables"
    by blast
  from t d have "add_annotations example_fs example_tables (Some ''/ann'') ''.jpg.pts'' ''funneled'' (Some 1)
        = (case flush example_tables of
              Inl e \<Rightarrow> Inl e
            | Inr s \<Rightarrow>
                Inr (s\<lparr>annotation := annotation s
             @ annotation_rows example_fs (Some ''/ann'') ''.jpg.pts'' ''funneled'' (file s)\<rparr>))"
    by blast
  then have 2: "add_annotations example_fs example_tables (Some ''/ann'') ''.jpg.pts'' ''funneled'' (Some 1)
        = Inr (example_tables\<lparr>annotation :=
                 [Annotation ''Ann_0002'' ''funneled'' (''10 20'' @ nl)]\<rparr>)"
    by (simp only: k sum.case r)
  from m 1 d e 2 show ?thesis by blast
qed


subsection \<open>What the import depends on\<close>

lemma for_each_cong:
  "(\<And>x s. x \<in> set xs \<Longrightarrow> f x s = g x s) \<Longrightarrow> for_each f xs s = for_each g xs s"
  by (induction xs arbitrary: s) (auto split: sum.splits)

lemma listdir_cases:
  assumes "sorted_listdir fs p = sorted_listdir fs' p"
  shows "(case os_listdir fs p of Inl e \<Rightarrow> Inl e | Inr names \<Rightarrow> F (sort names))
       = (case os_listdir fs' p of Inl e \<Rightarrow> Inl e | Inr names \<Rightarrow> F (sort names))"
  using assms by (auto simp: sorted_listdir_def split: sum.splits)

lemma add_files_client_cong:
  assumes "\<And>p. sorted_listdir fs p = sorted_listdir fs' p"
  shows "add_files_client fs i v c s = add_files_client fs' i v c s"
  unfolding add_files_client_def Let_def
  by (simp only: listdir_cases [OF assms,
        where F = "\<lambda>sn. for_each (add_files_file v) sn (add_Client \<lparr>Client.id = c\<rparr> s)"])

lemma add_files_cong:
  assumes "\<And>p. sorted_listdir fs p = sorted_listdir fs' p"
  shows "add_files fs s b v = add_files fs' s b v"
proof -
  have "add_files_client fs = add_files_client fs'"
    by (intro ext) (rule add_files_client_cong [OF assms])
  then show ?thesis
    unfolding add_files_def Let_def
    by (simp only: listdir_cases [OF assms,
          where F = "\<lambda>sn. for_each (add_files_client fs' (os_path_join b ''all_images'') v) sn s"])
qed

lemma parse_view1_cong:
  assumes "open_lines fs p = open_lines fs' p"
  shows "parse_view1 fn Fn fs v s p pr = parse_view1 fn Fn fs' v s p pr"
  unfolding parse_view1_def by (simp only: assms)

lemma parse_view2_cong:
  assumes "open_lines fs p = open_lines fs' p"
  shows "parse_view2 fn Fn fs v s p = parse_view2 fn Fn fs' v s p"
  unfolding parse_view2_def by (simp only: assms)

lemma parse_file_cong:
  assumes "open_lines fs p = open_lines fs' p"
  shows "parse_file fn Fn fs v s p pr = parse_file fn Fn fs' v s p pr"
  unfolding parse_file_def by (simp only: assms)

lemma protocol_files_fixed:
  "os_path_join (os_path_join b ''view1'') ''peopleDevTrain.txt'' \<in> set (protocol_files b)"
  "os_path_join (os_path_join b ''view1'') ''peopleDevTest.txt'' \<in> set (protocol_files b)"
  "os_path_join (os_path_join b ''view2'') ''people.txt'' \<in> set (protocol_files b)"
  "os_path_join (os_path_join b ''view1'') ''pairsDevTrain.txt'' \<in> set (protocol_files b)"
  "os_path_join (os_path_join b ''view1'') ''pairsDevTest.txt'' \<in> set (protocol_files b)"
  unfolding protocol_files_def by simp_all

lemma protocol_files_fold:
  "k \<in> set [1 .. 10] \<Longrightarrow> pairs_fold_file b k \<in> set (protocol_files b)"
  unfolding protocol_files_def set_append set_map by (rule UnI2) (rule imageI)

lemma add_people_cong:
  assumes "\<And>p. p \<in> set (protocol_files b) \<Longrightarrow> open_lines fs p = open_lines fs' p"
  shows "add_people fn Fn fs s b v = add_people fn Fn fs' s b v"
  unfolding add_people_def
  by (simp only: parse_view1_cong [OF assms [OF protocol_files_fixed(1)]]
      parse_view1_cong [OF assms [OF protocol_files_fixed(2)]]
      parse_view2_cong [OF assms [OF protocol_files_fixed(3)]])

lemma add_pairs_fold_cong:
  assumes "open_lines fs (pairs_fold_file b k) = open_lines fs' (pairs_fold_file b k)"
  shows "add_pairs_fold fn Fn fs b v k s = add_pairs_fold fn Fn fs' b v k s"
  unfolding add_pairs_fold_def by (simp only: parse_file_cong [OF assms])

lemma add_pairs_cong:
  assumes "\<And>p. p \<in> set (protocol_files b) \<Longrightarrow> open_lines fs p = open_lines fs' p"
  shows "add_pairs fn Fn fs s b v = add_pairs fn Fn fs' s b v"
proof -
  have "\<And>s. for_each (add_pairs_fold fn Fn fs b v) [1 .. 10] s
      = for_each (add_pairs_fold fn Fn fs' b v) [1 .. 10] s"
    by (rule for_each_cong) (rule add_pairs_fold_cong, rule assms, rule protocol_files_fold)
  then have folds: "for_each (add_pairs_fold fn Fn fs b v) [1 .. 10]
      = for_each (add_pairs_fold fn Fn fs' b v) [1 .. 10]"
    by (intro ext)
  show ?thesis
    unfolding add_pairs_def parse_file_cong [OF assms [OF protocol_files_fixed(4)]]
      parse_file_cong [OF assms [OF protocol_files_fixed(5)]] folds ..
qed

lemma endswith_append: "endswith (a @ b) b"
  by (simp add: endswith_def)

lemma endswith_make_path: "endswith (make_path f d (Some ext)) ext"
proof -
  have "\<And>a. endswith (os_path_join a (File.path f @ ext)) ext"
  proof -
    fix a
    have 1: "endswith (File.path f @ ext) ext" by (rule endswith_append)
    have 2: "endswith (a @ File.path f @ ext) ext"
      using endswith_append [of "a @ File.path f" ext] by simp
    have 3: "endswith (a @ ''/'' @ File.path f @ ext) ext"
      using endswith_append [of "a @ ''/'' @ File.path f" ext] by simp
    show "endswith (os_path_join a (File.path f @ ext)) ext"
      unfolding os_path_join_def using 1 2 3 by (simp del: append.simps)
  qed
  then show ?thesis by (simp add: make_path_def Let_def)
qed

lemma add_annotations_cong:
  assumes "\<And>p. endswith p ext \<Longrightarrow>
      os_path_exists fs p = os_path_exists fs' p \<and> open_read fs p = open_read fs' p"
  shows "add_annotations fs s d ext ty v = add_annotations fs' s d ext ty v"
proof -
  have "\<And>f s. add_annotations_file fs d ext ty v f s = add_annotations_file fs' d ext ty v f s"
  proof -
    fix f s
    from assms [OF endswith_make_path, of f d]
    have e: "os_path_exists fs (make_path f d (Some ext))
           = os_path_exists fs' (make_path f d (Some ext))"
      and r: "open_read fs (make_path f d (Some ext)) = open_read fs' (make_path f d (Some ext))"
      by simp_all
    show "add_annotations_file fs d ext ty v f s = add_annotations_file fs' d ext ty v f s"
      unfolding add_annotations_file_def Let_def by (simp only: e r)
  qed
  then have "add_annotations_file fs d ext ty v = add_annotations_file fs' d ext ty v"
    by (intro ext)
  then show ?thesis
    unfolding add_annotations_def by (simp only:)
qed

lemma create_cong:
  assumes l: "\<And>p. sorted_listdir fs p = sorted_listdir fs' p"
    and t: "\<And>p. p \<in> set (protocol_files (basedir args)) \<Longrightarrow> open_lines fs p = open_lines fs' p"
    and a: "\<And>p. annotation_path p \<Longrightarrow>
      os_path_exists fs p = os_path_exists fs' p \<and> open_read fs p = open_read fs' p"
  shows "create fn Fn args fs db = create fn Fn args fs' db"
proof -
  have 1: "\<And>s d ty v. add_annotations fs s d ''.pos'' ty v = add_annotations fs' s d ''.pos'' ty v"
    by (rule add_annotations_cong) (simp add: a annotation_path_def)
  have 2: "\<And>s d ty v. add_annotations fs s d ''.jpg.pts'' ty v = add_annotations fs' s d ''.jpg.pts'' ty v"
    by (rule add_annotations_cong) (simp add: a annotation_path_def)
  have 3: "\<And>s v. add_people fn Fn fs s (basedir args) v = add_people fn Fn fs' s (basedir args) v"
    by (rule add_people_cong) (rule t)
  have 4: "\<And>s v. add_pairs fn Fn fs s (basedir args) v = add_pairs fn Fn fs' s (basedir args) v"
    by (rule add_pairs_cong) (rule t)
  show ?thesis
    unfolding create_def Let_def add_files_cong [of fs fs', OF l] 1 2 3 4 ..
qed

lemma same_node_cases:
  "same_node a b \<Longrightarrow>
     (a = None \<and> b = None) \<or> (\<exists>c. a = Some (Regular c) \<and> b = Some (Regular c))
     \<or> (\<exists>l l'. a = Some (Directory l) \<and> b = Some (Directory l') \<and> mset l = mset l')"
  by (cases "(a, b)" rule: same_node.cases) auto

lemma mset_eq_sort: "mset xs = mset ys \<Longrightarrow> sort xs = sort ys"
  by (metis properties_for_sort sorted_sort mset_sort)

lemma same_node_listdir:
  assumes "same_node (fs p) (fs' p)"
  shows "sorted_listdir fs p = sorted_listdir fs' p"
  using same_node_cases [OF assms]
  by (auto simp: sorted_listdir_def os_listdir_def intro: mset_eq_sort)

lemma same_node_read:
  assumes "same_node (fs p) (fs' p)"
  shows "open_read fs p = open_read fs' p \<and> os_path_exists fs p = os_path_exists fs' p"
  using same_node_cases [OF assms]
  by (auto simp: open_read_def os_path_exists_def)

text \<open>
  C6. Two runs of \<^verbatim>\<open>create\<close> with the same arguments, from the same database file, over
  file systems with the same tree and the same files (the directory listings possibly in
  another order) end alike and leave the same database file: the same rows in the same
  order in every table.
\<close>

theorem create_deterministic:
  assumes "\<forall>p. same_node (fs p) (fs' p)"
  shows "create filename File_name args fs db = create filename File_name args fs' db"
proof (rule create_cong)
  fix p
  from assms have s: "same_node (fs p) (fs' p)" by simp
  from s show "sorted_listdir fs p = sorted_listdir fs' p" by (rule same_node_listdir)
  from same_node_read [of fs p fs', OF s] show "open_lines fs p = open_lines fs' p"
    by (simp add: open_lines_def)
  from same_node_read [of fs p fs', OF s]
  show "os_path_exists fs p = os_path_exists fs' p \<and> open_read fs p = open_read fs' p"
    by simp
qed

lemma same_node_refl: "same_node a a"
  by (cases "(a, a)" rule: same_node.cases) auto

lemma example_shuffled: "same_node (example_fs p) (example_fs_shuffled p)"
  by (simp add: example_fs_shuffled_def same_node_refl) (simp add: example_fs_def)

theorem create_deterministic_witness:
  "(\<forall>p. same_node (example_fs p) (example_fs_shuffled p))
   \<and> example_fs ''/lfw/all_images'' \<noteq> example_fs_shuffled ''/lfw/all_images''
   \<and> create example_filename File.id example_args example_fs_shuffled No_directory
        = (Inr (), Db_file example_result)"
proof -
  have s: "\<forall>p. same_node (example_fs p) (example_fs_shuffled p)"
    by (simp add: example_shuffled)
  from create_deterministic [OF s, of example_filename File.id example_args No_directory] example_run
  have "create example_filename File.id example_args example_fs_shuffled No_directory
        = (Inr (), Db_file example_result)"
    by simp
  moreover have "example_fs ''/lfw/all_images'' \<noteq> example_fs_shuffled ''/lfw/all_images''"
    by (simp add: example_fs_shuffled_def example_fs_def)
  ultimately show ?thesis using s by blast
qed



subsection \<open>The tables of the import\<close>

text \<open>A loop that goes through is the fold of what its body does when it goes through.\<close>

lemma for_each_fold:
  assumes "\<And>x s s'. body x s = Inr s' \<Longrightarrow> s' = g x s"
  shows "for_each body xs s = Inr s' \<Longrightarrow> s' = fold g xs s"
proof (induction xs arbitrary: s)
  case Nil
  then show ?case by simp
next
  case (Cons x xs)
  from Cons.prems obtain s1 where b: "body x s = Inr s1" and r: "for_each body xs s1 = Inr s'"
    by (auto split: sum.splits)
  from assms [OF b] Cons.IH [OF r] show ?case by simp
qed

lemma flush_result: "flush s = Inr s' \<Longrightarrow> s' = s"
  by (simp add: flush_def split: if_splits)

lemma flush_keys:
  "flush s = Inr s' \<Longrightarrow> distinct (map Client.id (client s)) \<and> distinct (map File.id (file s))"
  by (simp add: flush_def split: if_splits)

lemma add_file_row: "add_file n s = s\<lparr>file := file s @ [picture_row n]\<rparr>"
  by (simp add: add_file_def picture_row_def add_File_def Let_def File_init_def)

lemma add_files_file_step:
  "add_files_file v n s = Inr s'
     \<Longrightarrow> s' = (if \<not> startswith n ''.'' \<and> endswith n ''.jpg'' then add_file n s else s)"
  by (auto simp: add_files_file_def nodot_def startswith_def split: list.splits sum.splits if_splits)

lemma fold_add_file:
  "fold (\<lambda>n s. if P n then add_file n s else s) ns s
     = s\<lparr>file := file s @ map picture_row (filter P ns)\<rparr>"
  by (induction ns arbitrary: s) (simp_all add: add_file_row)

lemma add_files_file_loop:
  assumes "for_each (add_files_file v) ns s = Inr s'"
  shows "s' = s\<lparr>file := file s @ map picture_row
       (filter (\<lambda>n. endswith n ''.jpg'') (filter (\<lambda>n. \<not> startswith n ''.'') ns))\<rparr>"
proof -
  from assms have "s' = fold (\<lambda>n s. if \<not> startswith n ''.'' \<and> endswith n ''.jpg''
      then add_file n s else s) ns s"
    by (rule for_each_fold [rotated]) (rule add_files_file_step)
  then show ?thesis by (simp add: fold_add_file conj_commute)
qed

lemma add_files_client_step:
  assumes "add_files_client fs i v c s = Inr s'"
  shows "s' = (if startswith c ''.'' then s
     else s\<lparr>client := client s @ [\<lparr>Client.id = c\<rparr>],
            file := file s @ pictures_in fs (os_path_join i c)\<rparr>)"
proof (cases "startswith c ''.''")
  case True
  with assms show ?thesis
    by (auto simp: add_files_client_def nodot_def startswith_def Let_def
        split: list.splits sum.splits if_splits)
next
  case False
  with assms obtain names where l: "fs (os_path_join i c) = Some (Directory names)"
    and f: "for_each (add_files_file v) (sort names) (add_Client \<lparr>Client.id = c\<rparr> s) = Inr s'"
    by (auto simp: add_files_client_def nodot_def startswith_def Let_def os_listdir_def
        split: list.splits sum.splits if_splits option.splits node.splits)
  from add_files_file_loop [OF f] l False show ?thesis
    by (simp add: pictures_in_def visible_names_def add_Client_def)
qed

lemma fold_add_client:
  "fold (\<lambda>c s. if P c then s else s\<lparr>client := client s @ [C c], file := file s @ F c\<rparr>) cs s
     = s\<lparr>client := client s @ map C (filter (\<lambda>c. \<not> P c) cs),
         file := file s @ concat (map F (filter (\<lambda>c. \<not> P c) cs))\<rparr>"
  by (induction cs arbitrary: s) simp_all

lemma add_files_result:
  assumes "add_files fs s b v = Inr s'"
  shows "s' = s\<lparr>client := client s @ client_rows fs b, file := file s @ picture_rows fs b\<rparr>"
proof -
  from assms obtain names where l: "fs (os_path_join b ''all_images'') = Some (Directory names)"
    and f: "for_each (add_files_client fs (os_path_join b ''all_images'') v) (sort names) s = Inr s'"
    by (auto simp: add_files_def Let_def os_listdir_def split: sum.splits option.splits node.splits)
  from f have "s' = fold (\<lambda>c s. if startswith c ''.'' then s
     else s\<lparr>client := client s @ [\<lparr>Client.id = c\<rparr>],
            file := file s @ pictures_in fs (os_path_join (os_path_join b ''all_images'') c)\<rparr>)
        (sort names) s"
    by (rule for_each_fold [rotated]) (rule add_files_client_step)
  with l show ?thesis
    by (simp add: fold_add_client client_rows_def picture_rows_def visible_names_def)
qed

lemma next_id_snoc: "next_id (ids @ [next_id ids]) = Suc (next_id ids)"
  by (simp add: next_id_def)

lemma add_all_People_rows:
  "add_all_People es s
     = s\<lparr>people := people s @ People_rows (next_id (map People.id (people s))) es\<rparr>"
proof (induction es arbitrary: s)
  case Nil
  show ?case by (simp add: add_all_People_def)
next
  case (Cons e es)
  obtain pr fi where e: "e = (pr, fi)" by (cases e)
  have "add_all_People (e # es) s = add_all_People es (add_People pr fi s)"
    by (simp add: add_all_People_def e)
  then show ?case
    by (simp add: Cons.IH e add_People_def next_id_snoc)
qed

lemma add_all_People_append:
  "add_all_People (a @ b) s = add_all_People b (add_all_People a s)"
  by (simp add: add_all_People_def)

lemma add_all_People_Nil: "add_all_People [] s = s"
  by (simp add: add_all_People_def)

lemma add_all_People_file: "file (add_all_People es s) = file s"
  by (simp add: add_all_People_rows)

lemma people_loop:
  assumes step: "\<And>x s s'. body x s = Inr s' \<Longrightarrow> s' = add_all_People (E (file s) x) s"
  shows "for_each body xs s = Inr s' \<Longrightarrow> s' = add_all_People (concat (map (E (file s)) xs)) s"
proof (induction xs arbitrary: s)
  case Nil
  then show ?case by (simp add: add_all_People_Nil)
next
  case (Cons x xs)
  from Cons.prems obtain s1 where b: "body x s = Inr s1" and r: "for_each body xs s1 = Inr s'"
    by (auto split: sum.splits)
  from step [OF b] have s1: "s1 = add_all_People (E (file s) x) s" .
  then have f: "file s1 = file s" by (simp add: add_all_People_file)
  from Cons.IH [OF r] have "s' = add_all_People (concat (map (E (file s)) xs)) s1"
    by (simp only: f)
  then show ?case
    by (simp add: add_all_People_append s1)
qed

lemma file_id_by_name_result:
  "file_id_by_name Fn name s = Inr fi \<Longrightarrow> fi = id_of_name Fn (file s) name"
  by (auto simp: file_id_by_name_def id_of_name_def flush_def split: sum.splits option.splits if_splits)

lemma people_add_client_result:
  assumes "people_add_client fn Fn v pr c n s = Inr s'"
  shows "s' = add_all_People (map (\<lambda>i. (pr, id_of_name Fn (file s) (fn c i))) [1 .. n]) s"
proof -
  have "s' = add_all_People
      (concat (map (\<lambda>i. [(pr, id_of_name Fn (file s) (fn c i))]) [1 .. n])) s"
    using assms unfolding people_add_client_def
  proof (rule people_loop [where E = "\<lambda>rows i. [(pr, id_of_name Fn rows (fn c i))]", rotated])
    fix x s s'
    assume "(case verbose_gt v 1 of Inl e \<Rightarrow> Inl e
             | Inr b \<Rightarrow> (case file_id_by_name Fn (fn c x) s of Inl e \<Rightarrow> Inl e
                 | Inr file_id' \<Rightarrow> Inr (add_People pr file_id' s))) = Inr s'"
    then show "s' = add_all_People [(pr, id_of_name Fn (file s) (fn c x))] s"
      by (auto simp: add_all_People_def split: sum.splits dest: file_id_by_name_result)
  qed
  moreover have "\<And>f xs. concat (map (\<lambda>i. [f i]) xs) = map f xs"
    by (induct_tac xs) simp_all
  ultimately show ?thesis by simp
qed

lemma pictures_of_result:
  assumes "py3_int n = Inr k" and "people_add_client fn Fn v pr c k s = Inr s'"
  shows "s' = add_all_People (pictures_of fn Fn (file s) pr c n) s"
  using people_add_client_result [OF assms(2)] assms(1)
  by (simp add: pictures_of_def number_of_def)

lemma parse_view1_line_result:
  assumes "parse_view1_line fn Fn v pr l s = Inr s'"
  shows "s' = add_all_People (view1_line fn Fn (file s) pr l) s"
  using assms unfolding parse_view1_line_def view1_line_def
  by (auto split: list.splits sum.splits simp: add_all_People_Nil dest: pictures_of_result)

lemma parse_view1_result:
  assumes "parse_view1 fn Fn fs v s p pr = Inr s'"
  shows "s' = add_all_People (view1_people fn Fn (file s) pr (lines_of fs p)) s"
proof -
  from assms obtain ls where o: "open_lines fs p = Inr ls"
    and f: "for_each (parse_view1_line fn Fn v pr) ls s = Inr s'"
    by (auto simp: parse_view1_def split: sum.splits)
  from f have "s' = add_all_People (concat (map (\<lambda>l. view1_line fn Fn (file s) pr l) ls)) s"
    by (rule people_loop [where E = "\<lambda>rows l. view1_line fn Fn rows pr l", rotated])
      (rule parse_view1_line_result)
  with o show ?thesis by (simp add: view1_people_def lines_of_def)
qed

lemma parse_view2_loop:
  assumes "for_each (parse_view2_line fn Fn v) ls (k, po, s) = Inr (k', po', s')"
    and "po = None \<or> po = Some pr"
  shows "s' = add_all_People (view2_people fn Fn (file s) k pr ls) s"
  using assms
proof (induction ls arbitrary: k po s pr)
  case Nil
  then show ?case by (simp add: add_all_People_Nil)
next
  case (Cons l ls)
  from Cons.prems(1) obtain k1 po1 s1 where
    b: "parse_view2_line fn Fn v l (k, po, s) = Inr (k1, po1, s1)"
    and r: "for_each (parse_view2_line fn Fn v) ls (k1, po1, s1) = Inr (k', po', s')"
    by (auto split: sum.splits)
  consider (one) n where "py_split l = [n]"
    | (two) name n where "py_split l = [name, n]"
    | (other) "\<forall>n. py_split l \<noteq> [n]" "\<forall>name n. py_split l \<noteq> [name, n]"
    by blast
  then show ?case
  proof cases
    case one
    with b have e: "k1 = k + 1" "po1 = Some (''fold'' @ str_int k)" "s1 = s"
      by (simp_all add: parse_view2_line_def)
    from Cons.IH [OF r, of "''fold'' @ str_int k"] e one show ?thesis by simp
  next
    case two
    with b Cons.prems(2) obtain cnt s2 where po: "po = Some pr" and c: "py3_int n = Inr cnt"
      and 1: "people_add_client fn Fn v pr name cnt s = Inr s2"
      and 2: "people_add_client fn Fn v ''view2'' name cnt s2 = Inr s1"
      and e: "k1 = k" "po1 = po"
      by (auto simp: parse_view2_line_def split: option.splits sum.splits)
    from pictures_of_result [OF c 1] have s2: "s2 = add_all_People (pictures_of fn Fn (file s) pr name n) s" .
    then have f2: "file s2 = file s" by (simp add: add_all_People_file)
    from pictures_of_result [OF c 2] f2
    have s1: "s1 = add_all_People (pictures_of fn Fn (file s) ''view2'' name n) s2" by simp
    then have f1: "file s1 = file s" by (simp add: add_all_People_file f2)
    from r e po have "for_each (parse_view2_line fn Fn v) ls (k, Some pr, s1) = Inr (k', po', s')"
      by simp
    from Cons.IH [OF this, of pr] have "s' = add_all_People (view2_people fn Fn (file s) k pr ls) s1"
      by (simp add: f1)
    with s1 s2 two show ?thesis by (simp add: add_all_People_append)
  next
    case other
    with b have e: "k1 = k" "po1 = po" "s1 = s"
      by (auto simp: parse_view2_line_def split: list.splits)
    from other have "view2_people fn Fn (file s) k pr (l # ls) = view2_people fn Fn (file s) k pr ls"
      by (auto split: list.splits)
    with Cons.IH [OF _ Cons.prems(2), of k s] r e show ?thesis by simp
  qed
qed

lemma parse_view2_result:
  assumes "parse_view2 fn Fn fs v s p = Inr s'"
  shows "s' = add_all_People (view2_people fn Fn (file s) 0 [] (lines_of fs p)) s"
proof -
  from assms obtain ls k po where o: "open_lines fs p = Inr ls"
    and f: "for_each (parse_view2_line fn Fn v) ls (0, None, s) = Inr (k, po, s')"
    by (auto simp: parse_view2_def split: sum.splits)
  from parse_view2_loop [OF f, of "[]"] o show ?thesis by (simp add: lines_of_def)
qed

lemma add_people_result:
  assumes "add_people fn Fn fs s b v = Inr s'"
  shows "s' = add_all_People (people_entries fn Fn fs b (file s)) s"
proof -
  from assms obtain s1 s2 where
    1: "parse_view1 fn Fn fs v s (os_path_join (os_path_join b ''view1'') ''peopleDevTrain.txt'')
          ''train'' = Inr s1"
    and 2: "parse_view1 fn Fn fs v s1 (os_path_join (os_path_join b ''view1'') ''peopleDevTest.txt'')
          ''test'' = Inr s2"
    and 3: "parse_view2 fn Fn fs v s2 (os_path_join (os_path_join b ''view2'') ''people.txt'') = Inr s'"
    by (auto simp: add_people_def split: sum.splits)
  note a = parse_view1_result [OF 1]
  then have f1: "file s1 = file s" by (simp add: add_all_People_file)
  note b = parse_view1_result [OF 2]
  then have f2: "file s2 = file s" by (simp add: add_all_People_file f1)
  note c = parse_view2_result [OF 3]
  show ?thesis
    unfolding people_entries_def add_all_People_append
    using a b c f1 f2 by simp
qed

lemma add_all_Pair_rows:
  "add_all_Pair es s = s\<lparr>pair := pair s @ Pair_rows (next_id (map Pair.id (pair s))) es\<rparr>"
proof (induction es arbitrary: s)
  case Nil
  show ?case by (simp add: add_all_Pair_def)
next
  case (Cons e es)
  obtain pr a b m where e: "e = (pr, a, b, m)" by (cases e)
  have "add_all_Pair (e # es) s = add_all_Pair es (add_Pair pr a b m s)"
    by (simp add: add_all_Pair_def e)
  then show ?case
    by (simp add: Cons.IH e add_Pair_def next_id_snoc)
qed

lemma add_all_Pair_append: "add_all_Pair (a @ b) s = add_all_Pair b (add_all_Pair a s)"
  by (simp add: add_all_Pair_def)

lemma add_all_Pair_Nil: "add_all_Pair [] s = s"
  by (simp add: add_all_Pair_def)

lemma add_all_Pair_file: "file (add_all_Pair es s) = file s"
  by (simp add: add_all_Pair_rows)

lemma pair_loop:
  assumes step: "\<And>x s s'. body x s = Inr s' \<Longrightarrow> s' = add_all_Pair (E (file s) x) s"
  shows "for_each body xs s = Inr s' \<Longrightarrow> s' = add_all_Pair (concat (map (E (file s)) xs)) s"
proof (induction xs arbitrary: s)
  case Nil
  then show ?case by (simp add: add_all_Pair_Nil)
next
  case (Cons x xs)
  from Cons.prems obtain s1 where b: "body x s = Inr s1" and r: "for_each body xs s1 = Inr s'"
    by (auto split: sum.splits)
  from step [OF b] have s1: "s1 = add_all_Pair (E (file s) x) s" .
  then have f: "file s1 = file s" by (simp add: add_all_Pair_file)
  from Cons.IH [OF r] have "s' = add_all_Pair (concat (map (E (file s)) xs)) s1"
    by (simp only: f)
  then show ?case
    by (simp add: add_all_Pair_append s1)
qed

lemma pair_file_id_result:
  "pair_file_id fn Fn name n s = Inr fi \<Longrightarrow> fi = id_of_name Fn (file s) (fn name (number_of n))"
  by (auto simp: pair_file_id_def number_of_def split: sum.splits dest: file_id_by_name_result)

lemma parse_file_pair_result:
  assumes "parse_file_pair fn Fn v pr a b c d m s = Inr s'"
  shows "s' = add_all_Pair [(pr, id_of_name Fn (file s) (fn a (number_of b)),
                             id_of_name Fn (file s) (fn c (number_of d)), m)] s"
  using assms unfolding parse_file_pair_def
  by (auto simp: add_all_Pair_def split: sum.splits dest!: pair_file_id_result)

lemma parse_file_line_result:
  assumes "parse_file_line fn Fn v pr l s = Inr s'"
  shows "s' = add_all_Pair (pair_line fn Fn (file s) pr l) s"
  using assms unfolding parse_file_line_def pair_line_def
  by (auto split: list.splits simp: add_all_Pair_Nil dest: parse_file_pair_result)

lemma parse_file_result:
  assumes "parse_file fn Fn fs v s p pr = Inr s'"
  shows "s' = add_all_Pair (file_pairs fn Fn (file s) pr (lines_of fs p)) s"
proof -
  from assms obtain ls where o: "open_lines fs p = Inr ls"
    and f: "for_each (parse_file_line fn Fn v pr) ls s = Inr s'"
    by (auto simp: parse_file_def split: sum.splits)
  from f have "s' = add_all_Pair (concat (map (\<lambda>l. pair_line fn Fn (file s) pr l) ls)) s"
    by (rule pair_loop [where E = "\<lambda>rows l. pair_line fn Fn rows pr l", rotated])
      (rule parse_file_line_result)
  with o show ?thesis by (simp add: file_pairs_def lines_of_def)
qed

lemma add_pairs_fold_result:
  assumes "add_pairs_fold fn Fn fs b v k s = Inr s'"
  shows "s' = add_all_Pair (fold_pairs fn Fn fs b (file s) k) s"
proof -
  from assms obtain s1 where
    1: "parse_file fn Fn fs v s (pairs_fold_file b k) (''fold'' @ str_int k) = Inr s1"
    and 2: "parse_file fn Fn fs v s1 (pairs_fold_file b k) ''view2'' = Inr s'"
    by (auto simp: add_pairs_fold_def split: sum.splits)
  note a = parse_file_result [OF 1]
  then have f1: "file s1 = file s" by (simp add: add_all_Pair_file)
  note c = parse_file_result [OF 2]
  show ?thesis
    unfolding fold_pairs_def add_all_Pair_append
    using a c f1 by simp
qed

lemma add_pairs_result:
  assumes "add_pairs fn Fn fs s b v = Inr s'"
  shows "s' = add_all_Pair (pair_entries fn Fn fs b (file s)) s"
proof -
  from assms obtain s0 s1 s2 where
    0: "flush s = Inr s0"
    and 1: "parse_file fn Fn fs v s0 (os_path_join (os_path_join b ''view1'') ''pairsDevTrain.txt'')
          ''train'' = Inr s1"
    and 2: "parse_file fn Fn fs v s1 (os_path_join (os_path_join b ''view1'') ''pairsDevTest.txt'')
          ''test'' = Inr s2"
    and 3: "for_each (add_pairs_fold fn Fn fs b v) [1 .. 10] s2 = Inr s'"
    by (auto simp: add_pairs_def split: sum.splits)
  from flush_result [OF 0] have s0: "s0 = s" .
  note a = parse_file_result [OF 1 [unfolded s0]]
  then have f1: "file s1 = file s" by (simp add: add_all_Pair_file)
  note c = parse_file_result [OF 2]
  then have f2: "file s2 = file s" by (simp add: add_all_Pair_file f1)
  from 3 have "s' = add_all_Pair (concat (map (\<lambda>k. fold_pairs fn Fn fs b (file s2) k) [1 .. 10])) s2"
    by (rule pair_loop [where E = "\<lambda>rows k. fold_pairs fn Fn fs b rows k", rotated])
      (rule add_pairs_fold_result)
  then have d: "s' = add_all_Pair (concat (map (fold_pairs fn Fn fs b (file s)) [1 .. 10])) s2"
    by (simp only: f2)
  show ?thesis
    unfolding pair_entries_def add_all_Pair_append
    using a c d f1 by simp
qed

lemma add_annotations_file_step:
  assumes "add_annotations_file fs d ext ty v f s = Inr s'"
  shows "s' = s\<lparr>annotation := annotation s @ annotation_rows fs d ext ty [f]\<rparr>"
  using assms
  by (auto simp: add_annotations_file_def Let_def os_path_exists_def open_read_def
      annotation_rows_def add_Annotation_def split: if_splits sum.splits option.splits node.splits)

lemma annotation_rows_Cons:
  "annotation_rows fs d ext ty (f # fl)
     = annotation_rows fs d ext ty [f] @ annotation_rows fs d ext ty fl"
  by (simp add: annotation_rows_def)

lemma add_annotations_file_loop:
  "for_each (add_annotations_file fs d ext ty v) fl s = Inr s'
     \<Longrightarrow> s' = s\<lparr>annotation := annotation s @ annotation_rows fs d ext ty fl\<rparr>"
proof (induction fl arbitrary: s)
  case Nil
  then show ?case by (simp add: annotation_rows_def)
next
  case (Cons f fl)
  from Cons.prems obtain s1 where b: "add_annotations_file fs d ext ty v f s = Inr s1"
    and r: "for_each (add_annotations_file fs d ext ty v) fl s1 = Inr s'"
    by (auto split: sum.splits)
  from Cons.IH [OF r] add_annotations_file_step [OF b] show ?case
    by (simp add: annotation_rows_Cons [of fs d ext ty f fl])
qed

lemma add_annotations_result:
  assumes "add_annotations fs s d ext ty v = Inr s'"
  shows "s' = s\<lparr>annotation := annotation s @ annotation_rows fs d ext ty (file s)\<rparr>"
proof -
  from assms obtain s0 where 0: "flush s = Inr s0"
    and f: "for_each (add_annotations_file fs d ext ty v) (file s0) s0 = Inr s'"
    by (auto simp: add_annotations_def split: sum.splits)
  from flush_result [OF 0] add_annotations_file_loop [OF f] show ?thesis by simp
qed

lemma create_all_content: "content (create_all m e) = content e"
  by (induction m arbitrary: e) auto

lemma create_all_table_names:
  "distinct m \<Longrightarrow>
     table_names (create_all m e) = table_names e @ filter (\<lambda>t. t \<notin> set (table_names e)) m"
proof (induction m arbitrary: e)
  case Nil
  show ?case by simp
next
  case (Cons t m)
  then have d: "distinct m" and t: "t \<notin> set m" by simp_all
  show ?case
  proof (cases "t \<in> set (table_names e)")
    case True
    then show ?thesis by (simp add: Cons.IH [OF d])
  next
    case False
    from t have "filter (\<lambda>x. x \<noteq> t \<and> x \<notin> set (table_names e)) m
        = filter (\<lambda>x. x \<notin> set (table_names e)) m"
      by (intro filter_cong) auto
    with False show ?thesis by (simp add: Cons.IH [OF d])
  qed
qed

lemma create_all_again:
  "set m \<subseteq> set (table_names e) \<Longrightarrow> create_all m e = e"
  by (induction m arbitrary: e) auto

lemma create_all_covers: "set m \<subseteq> set (table_names (create_all m e))"
proof (induction m arbitrary: e)
  case Nil
  show ?case by simp
next
  case (Cons t m)
  have mono: "\<And>m e. set (table_names e) \<subseteq> set (table_names (create_all m e))"
  proof -
    fix m :: "string list" and e :: sqlite
    show "set (table_names e) \<subseteq> set (table_names (create_all m e))"
      by (induction m arbitrary: e) (auto, fastforce)
  qed
  have "t \<in> set (table_names (if t \<in> set (table_names e) then e
                    else e\<lparr>table_names := table_names e @ [t]\<rparr>))"
    by simp
  with mono have "t \<in> set (table_names (create_all (t # m) e))"
    by (metis create_all.simps(2) subsetD)
  with Cons.IH show ?case by simp
qed

lemma Base_metadata_names:
  "Base_metadata = [''client'', ''file'', ''people'', ''pair'', ''annotation'']"
  by (simp add: Base_metadata_def Client_tablename_def File_tablename_def People_tablename_def
      Pair_tablename_def Annotation_tablename_def)

lemma create_tables_result:
  assumes "create_tables args db = Inr d"
  shows "table_names d = tables_of db @ filter (\<lambda>t. t \<notin> set (tables_of db)) Base_metadata
       \<and> content d = rows_of db"
proof -
  from assms obtain e where c: "connect_engine db = Inr e"
    and d: "d = create_all Base_metadata (create_all Base_metadata
                          (create_all Base_metadata (create_all Base_metadata
                            (create_all Base_metadata e))))"
    by (auto simp: create_tables_def split: list.splits sum.splits)
  from c have e: "table_names e = tables_of db" "content e = rows_of db"
    by (auto simp: connect_engine_def tables_of_def rows_of_def split: place.splits)
  have again: "create_all Base_metadata (create_all Base_metadata e) = create_all Base_metadata e"
    by (rule create_all_again) (rule create_all_covers)
  from d have "d = create_all Base_metadata e"
    by (simp add: again)
  moreover have "distinct Base_metadata" by (simp add: Base_metadata_names)
  ultimately show ?thesis
    by (simp add: create_all_table_names create_all_content e)
qed

lemma create_success:
  assumes "create fn Fn args fs db = (Inr (), db')"
  shows "db' = Db_file \<lparr>table_names = tables_of (db_before args db)
            @ filter (\<lambda>t. t \<notin> set (tables_of (db_before args db))) Base_metadata,
          content = imported fn Fn args fs (rows_of (db_before args db))\<rparr>"
proof -
  define db2 where "db2 = (if recreate args \<or> db = No_directory then No_file else db)"
  have p: "tables_of db2 = tables_of (db_before args db)" "rows_of db2 = rows_of (db_before args db)"
    by (simp_all add: db2_def db_before_def tables_of_def rows_of_def)
  from assms obtain dbfile rest where fa: "files args = dbfile # rest"
    by (cases "files args") (simp_all add: create_def)
  have prep: "(if recreate args \<and> dbfile_exists db then os_unlink db else db) = db2
       \<or> (if recreate args \<and> dbfile_exists db then os_unlink db else db) = No_directory"
    by (cases db) (simp_all add: db2_def dbfile_exists_def os_unlink_def)
  from assms fa have ne: "os_path_dirname dbfile \<noteq> []"
    by (auto simp: create_def Let_def dbdir_exists_def os_makedirs_def split: if_splits)
  have mk: "(if \<not> dbdir_exists (os_path_dirname dbfile)
                   (if recreate args \<and> dbfile_exists db then os_unlink db else db)
            then os_makedirs (os_path_dirname dbfile)
                   (if recreate args \<and> dbfile_exists db then os_unlink db else db)
            else Inr (if recreate args \<and> dbfile_exists db then os_unlink db else db)) = Inr db2"
    using ne by (cases db) (simp_all add: db2_def dbfile_exists_def os_unlink_def dbdir_exists_def
        os_makedirs_def)
  from assms have core: "(case create_tables args db2 of
        Inl e \<Rightarrow> (Inl e, db2)
      | Inr d \<Rightarrow>
     (case verbose_gt (verbose args) 2 of
        Inl e \<Rightarrow> (Inl e, Db_file d)
      | Inr echo \<Rightarrow>
     (case add_files fs (content d) (basedir args) (verbose args) of
        Inl e \<Rightarrow> (Inl e, Db_file d)
      | Inr s \<Rightarrow>
     (case add_people fn Fn fs s (basedir args) (verbose args) of
        Inl e \<Rightarrow> (Inl e, Db_file d)
      | Inr s \<Rightarrow>
     (case add_pairs fn Fn fs s (basedir args) (verbose args) of
        Inl e \<Rightarrow> (Inl e, Db_file d)
      | Inr s \<Rightarrow>
     (case (if ''idiap'' \<in> set (annotation_types args)
            then add_annotations fs s (idiap_annotation_dir args) ''.pos'' ''idiap'' (verbose args)
            else Inr s) of
        Inl e \<Rightarrow> (Inl e, Db_file d)
      | Inr s \<Rightarrow>
     (case (if ''funneled'' \<in> set (annotation_types args)
            then add_annotations fs s (funneled_annotation_dir args) ''.jpg.pts'' ''funneled''
                   (verbose args)
            else Inr s) of
        Inl e \<Rightarrow> (Inl e, Db_file d)
      | Inr s \<Rightarrow>
     (case flush s of
        Inl e \<Rightarrow> (Inl e, Db_file d)
      | Inr s \<Rightarrow> (Inr (), Db_file (d\<lparr>content := s\<rparr>)))))))))) = (Inr (), db')"
    unfolding create_def Let_def fa list.case mk sum.case .
  then obtain d s1 s2 s3 s4 s5 s6 where
    ct: "create_tables args db2 = Inr d"
    and 1: "add_files fs (content d) (basedir args) (verbose args) = Inr s1"
    and 2: "add_people fn Fn fs s1 (basedir args) (verbose args) = Inr s2"
    and 3: "add_pairs fn Fn fs s2 (basedir args) (verbose args) = Inr s3"
    and 4: "(if ''idiap'' \<in> set (annotation_types args)
            then add_annotations fs s3 (idiap_annotation_dir args) ''.pos'' ''idiap'' (verbose args)
            else Inr s3) = Inr s4"
    and 5: "(if ''funneled'' \<in> set (annotation_types args)
            then add_annotations fs s4 (funneled_annotation_dir args) ''.jpg.pts'' ''funneled''
                   (verbose args)
            else Inr s4) = Inr s5"
    and 6: "flush s5 = Inr s6"
    and r: "db' = Db_file (d\<lparr>content := s6\<rparr>)"
    by (auto split: sum.splits)
  define c where "c = content d"
  define rows where "rows = file c @ picture_rows fs (basedir args)"
  from create_tables_result [OF ct] p
  have tn: "table_names d = tables_of (db_before args db)
            @ filter (\<lambda>t. t \<notin> set (tables_of (db_before args db))) Base_metadata"
    and cd: "c = rows_of (db_before args db)"
    by (simp_all add: c_def)
  from add_files_result [OF 1]
  have s1: "s1 = c\<lparr>client := client c @ client_rows fs (basedir args), file := rows\<rparr>"
    by (simp add: c_def rows_def)
  then have f1: "file s1 = rows" by simp
  from add_people_result [OF 2] f1
  have s2: "s2 = s1\<lparr>people := people s1 @ People_rows (next_id (map People.id (people s1)))
      (people_entries fn Fn fs (basedir args) rows)\<rparr>"
    by (simp add: add_all_People_rows)
  then have f2: "file s2 = rows" by (simp add: f1)
  from add_pairs_result [OF 3] f2
  have s3: "s3 = s2\<lparr>pair := pair s2 @ Pair_rows (next_id (map Pair.id (pair s2)))
      (pair_entries fn Fn fs (basedir args) rows)\<rparr>"
    by (simp add: add_all_Pair_rows)
  then have f3: "file s3 = rows" by (simp add: f2)
  from 4 f3 have s4: "s4 = s3\<lparr>annotation := annotation s3 @
      (if ''idiap'' \<in> set (annotation_types args)
       then annotation_rows fs (idiap_annotation_dir args) ''.pos'' ''idiap'' rows else [])\<rparr>"
    by (auto split: if_splits dest: add_annotations_result)
  then have f4: "file s4 = rows" by (simp add: f3)
  from 5 f4 have s5: "s5 = s4\<lparr>annotation := annotation s4 @
      (if ''funneled'' \<in> set (annotation_types args)
       then annotation_rows fs (funneled_annotation_dir args) ''.jpg.pts'' ''funneled'' rows
       else [])\<rparr>"
    by (auto split: if_splits dest: add_annotations_result)
  from flush_result [OF 6] have s6: "s6 = s5" .
  have "s6 = imported fn Fn args fs c"
    unfolding s6 s5 s4 s3 s2 s1 imported_def Let_def annotation_entries_def rows_def [symmetric]
    by (cases c) simp
  with r tn cd show ?thesis
    by (cases d) simp
qed

lemma create_keys:
  assumes "create fn Fn args fs db = (Inr (), Db_file d)"
  shows "distinct (map Client.id (client (content d))) \<and> distinct (map File.id (file (content d)))"
proof -
  from assms obtain d0 s5 s6 where 6: "flush s5 = Inr s6" and r: "d = d0\<lparr>content := s6\<rparr>"
    unfolding create_def Let_def
    by (auto split: list.splits sum.splits)
  from flush_result [OF 6] flush_keys [OF 6] r show ?thesis by simp
qed

lemma create_reads_only:
  assumes "\<forall>p. fs' p = fs p \<or> (regular_file (fs p) \<and> regular_file (fs' p)
             \<and> p \<notin> set (protocol_files (basedir args)) \<and> \<not> annotation_path p)"
  shows "create fn Fn args fs' db = create fn Fn args fs db"
proof (rule create_cong)
  fix p
  from assms have c: "fs' p = fs p \<or> (regular_file (fs p) \<and> regular_file (fs' p)
             \<and> p \<notin> set (protocol_files (basedir args)) \<and> \<not> annotation_path p)"
    by (rule spec)
  then show "sorted_listdir fs' p = sorted_listdir fs p"
    by (auto simp: sorted_listdir_def os_listdir_def regular_file_def split: option.splits node.splits)
  from c show "p \<in> set (protocol_files (basedir args)) \<Longrightarrow> open_lines fs' p = open_lines fs p"
    by (auto simp: open_lines_def open_read_def)
  from c show "annotation_path p \<Longrightarrow>
      os_path_exists fs' p = os_path_exists fs p \<and> open_read fs' p = open_read fs p"
    by (auto simp: os_path_exists_def open_read_def)
qed

lemma basename_plain: "CHR ''/'' \<notin> set p \<Longrightarrow> basename p = p"
proof -
  assume "CHR ''/'' \<notin> set p"
  then have "takeWhile (\<lambda>c. c \<noteq> CHR ''/'') (rev p) = rev p"
    by (intro takeWhile_eq_all_conv [THEN iffD2]) auto
  then show ?thesis unfolding basename_def by (simp only: rev_rev_ident)
qed

lemma splitext_root_jpg: "splitext_root (c @ ''_'' @ n @ ''.jpg'') = c @ ''_'' @ n"
  by (simp add: splitext_root_def)

lemma last_field_plain:
  assumes "CHR ''_'' \<notin> set n"
  shows "last_field (c @ ''_'' @ n) = n"
proof -
  from assms have "takeWhile (\<lambda>x. x \<noteq> CHR ''_'') (rev n @ CHR ''_'' # rev c) = rev n"
    by (intro takeWhile_tail [THEN trans]) auto
  then show ?thesis by (simp add: last_field_def)
qed

lemma picture_row_plain:
  assumes "CHR ''/'' \<notin> set (c @ n)" and "CHR ''_'' \<notin> set n"
  shows "picture_row (c @ ''_'' @ n @ ''.jpg'')
       = (File_init c (Shot_str n))\<lparr>shot_id := Integer_column (Shot_str n)\<rparr>"
proof -
  from assms(1) have "CHR ''/'' \<notin> set (c @ ''_'' @ n @ ''.jpg'')" by simp
  then have b: "basename (c @ ''_'' @ n @ ''.jpg'') = c @ ''_'' @ n @ ''.jpg''"
    by (rule basename_plain)
  show ?thesis
    unfolding picture_row_def b splitext_root_jpg last_field_plain [OF assms(2)] Let_def
    by simp
qed

text \<open>
  C5. \<^verbatim>\<open>create_tables\<close> leaves the database file with the tables it had (none without a
  file) followed by those of \<^verbatim>\<open>client\<close>, \<^verbatim>\<open>file\<close>, \<^verbatim>\<open>people\<close>, \<^verbatim>\<open>pair\<close> and
  \<^verbatim>\<open>annotation\<close> it did not have, and with the rows it had. When \<^verbatim>\<open>create\<close> returns,
  the file has these tables (after \<^verbatim>\<open>--recreate\<close> just the five), and the five hold
  exactly \<open>imported\<close>: each its former rows, followed by one client row for every visible
  directory of \<^verbatim>\<open>all_images\<close>, one file row for every visible \<^verbatim>\<open>.jpg\<close> name in these,
  the people and pair rows the lines of the protocol lists stand for, consecutively
  numbered, and one annotation row for every annotation file that is there; no two client
  rows and no two file rows share a key. The file row of a picture \<^verbatim>\<open>c_n.jpg\<close> is the
  one \<^verbatim>\<open>File(c, n)\<close> makes, with the shot as the \<^verbatim>\<open>Integer\<close> column keeps it. What the
  import reads are directory listings, the protocol lists and annotation files: changing
  the content of any other regular file changes nothing of the run.
\<close>

theorem create_five_tables:
  "(create_tables args db0 = Inr d0 \<longrightarrow>
      table_names d0 = tables_of db0
         @ filter (\<lambda>t. t \<notin> set (tables_of db0))
             [''client'', ''file'', ''people'', ''pair'', ''annotation'']
      \<and> content d0 = rows_of db0)
   \<and> (create filename File_name args fs db = (Inr (), db') \<longrightarrow>
        db' = Db_file
          \<lparr>table_names = tables_of (db_before args db)
              @ filter (\<lambda>t. t \<notin> set (tables_of (db_before args db)))
                  [''client'', ''file'', ''people'', ''pair'', ''annotation''],
           content = imported filename File_name args fs (rows_of (db_before args db))\<rparr>
        \<and> distinct (map Client.id
              (client (imported filename File_name args fs (rows_of (db_before args db)))))
        \<and> distinct (map File.id
              (file (imported filename File_name args fs (rows_of (db_before args db))))))
   \<and> (CHR ''/'' \<notin> set (c @ n) \<and> CHR ''_'' \<notin> set n \<longrightarrow>
        picture_row (c @ ''_'' @ n @ ''.jpg'')
          = (File_init c (Shot_str n))\<lparr>shot_id := Integer_column (Shot_str n)\<rparr>)
   \<and> ((\<forall>p. fs' p = fs p \<or> (regular_file (fs p) \<and> regular_file (fs' p)
             \<and> p \<notin> set (protocol_files (basedir args)) \<and> \<not> annotation_path p)) \<longrightarrow>
        create filename File_name args fs' db = create filename File_name args fs db)"
proof (intro conjI impI)
  assume "create_tables args db0 = Inr d0"
  from create_tables_result [OF this]
  show "table_names d0 = tables_of db0
         @ filter (\<lambda>t. t \<notin> set (tables_of db0))
             [''client'', ''file'', ''people'', ''pair'', ''annotation'']"
    and "content d0 = rows_of db0"
    by (simp_all only: Base_metadata_names)
next
  assume r: "create filename File_name args fs db = (Inr (), db')"
  from create_success [OF r]
  show e: "db' = Db_file
          \<lparr>table_names = tables_of (db_before args db)
              @ filter (\<lambda>t. t \<notin> set (tables_of (db_before args db)))
                  [''client'', ''file'', ''people'', ''pair'', ''annotation''],
           content = imported filename File_name args fs (rows_of (db_before args db))\<rparr>"
    by (simp only: Base_metadata_names)
  from create_keys [OF r [unfolded e]]
  show "distinct (map Client.id
              (client (imported filename File_name args fs (rows_of (db_before args db)))))"
    and "distinct (map File.id
              (file (imported filename File_name args fs (rows_of (db_before args db)))))"
    by simp_all
next
  assume "CHR ''/'' \<notin> set (c @ n) \<and> CHR ''_'' \<notin> set n"
  then show "picture_row (c @ ''_'' @ n @ ''.jpg'')
          = (File_init c (Shot_str n))\<lparr>shot_id := Integer_column (Shot_str n)\<rparr>"
    by (intro picture_row_plain) simp_all
next
  assume "\<forall>p. fs' p = fs p \<or> (regular_file (fs p) \<and> regular_file (fs' p)
             \<and> p \<notin> set (protocol_files (basedir args)) \<and> \<not> annotation_path p)"
  then show "create filename File_name args fs' db = create filename File_name args fs db"
    by (rule create_reads_only)
qed

lemma example_retouched:
  "example_fs_retouched p = example_fs p \<or> (regular_file (example_fs p)
     \<and> regular_file (example_fs_retouched p)
     \<and> p \<notin> set (protocol_files (basedir example_args)) \<and> \<not> annotation_path p)"
proof (cases "p = ''/lfw/all_images/Ann/Ann_0001.jpg''")
  case True
  have "''/lfw/all_images/Ann/Ann_0001.jpg'' \<notin> set (protocol_files ''/lfw'')"
    by code_simp
  moreover have "\<not> annotation_path ''/lfw/all_images/Ann/Ann_0001.jpg''"
    by code_simp
  moreover have "regular_file (example_fs ''/lfw/all_images/Ann/Ann_0001.jpg'')"
    by code_simp
  ultimately show ?thesis using True
    by (simp add: example_fs_retouched_def regular_file_def example_args_def)
next
  case False
  then show ?thesis by (simp add: example_fs_retouched_def)
qed

text \<open>
  The example installation once more: a second run on the file the first one left is
  refused by the engine, as every client and file row is there already; with
  \<^verbatim>\<open>--recreate\<close> it goes through and gives the same file; and a database file named
  without a directory ends the run before anything is made.
\<close>

lemma example_rerun:
  "create example_filename File.id example_args example_fs (Db_file example_result)
     = (Inl IntegrityError, Db_file example_result)"
  by code_simp

lemma example_recreate:
  "create example_filename File.id (example_args\<lparr>recreate := True\<rparr>) example_fs
       (Db_file example_result)
     = (Inr (), Db_file example_result)"
  by code_simp

lemma example_no_directory_part:
  "create example_filename File.id (example_args\<lparr>files := [''db.sql3'']\<rparr>) example_fs No_file
     = (Inl OSError, No_file)"
  by code_simp

theorem create_five_tables_witness:
  "create_tables example_args No_file
     = Inr \<lparr>table_names = [''client'', ''file'', ''people'', ''pair'', ''annotation''],
            content = no_rows\<rparr>
   \<and> create example_filename File.id example_args example_fs No_directory
        = (Inr (), Db_file example_result)
   \<and> table_names example_result = [''client'', ''file'', ''people'', ''pair'', ''annotation'']
   \<and> imported example_filename File.id example_args example_fs no_rows = content example_result
   \<and> client (content example_result) \<noteq> [] \<and> file (content example_result) \<noteq> []
   \<and> people (content example_result) \<noteq> [] \<and> pair (content example_result) \<noteq> []
   \<and> annotation (content example_result) \<noteq> []
   \<and> distinct (map File.id (file (content example_result)))
   \<and> picture_row ''Ann_0001.jpg''
        = \<lparr>File.id = ''Ann_0001'', client_id = ''Ann'', path = ''Ann/Ann_0001'',
           shot_id = Shot_int 1\<rparr>
   \<and> example_fs_retouched ''/lfw/all_images/Ann/Ann_0001.jpg''
        \<noteq> example_fs ''/lfw/all_images/Ann/Ann_0001.jpg''
   \<and> create example_filename File.id example_args example_fs_retouched No_directory
        = create example_filename File.id example_args example_fs No_directory"
proof -
  obtain d0 where c: "create_tables example_args No_file = Inr d0"
    by (simp add: create_tables_def example_args_def verbose_gt_def connect_engine_def)
  note t = create_five_tables [of example_args No_file d0 example_filename File.id example_fs
      No_directory "Db_file example_result" "''Ann''" "''0001''" example_fs_retouched]
  from t c have "table_names d0 = [''client'', ''file'', ''people'', ''pair'', ''annotation'']"
    and "content d0 = no_rows"
    by (simp_all add: tables_of_def rows_of_def)
  with c have 0: "create_tables example_args No_file
     = Inr \<lparr>table_names = [''client'', ''file'', ''people'', ''pair'', ''annotation''],
            content = no_rows\<rparr>"
    by (cases d0) simp
  have b: "db_before example_args No_directory = No_directory"
    by (simp add: db_before_def example_args_def)
  from t example_run have "Db_file example_result = Db_file
          \<lparr>table_names = tables_of (db_before example_args No_directory)
              @ filter (\<lambda>t. t \<notin> set (tables_of (db_before example_args No_directory)))
                  [''client'', ''file'', ''people'', ''pair'', ''annotation''],
           content = imported example_filename File.id example_args example_fs
             (rows_of (db_before example_args No_directory))\<rparr>"
    and k: "distinct (map File.id (file (imported example_filename File.id example_args example_fs
             (rows_of (db_before example_args No_directory)))))"
    by blast+
  then have "example_result =
          \<lparr>table_names = [''client'', ''file'', ''people'', ''pair'', ''annotation''],
           content = imported example_filename File.id example_args example_fs no_rows\<rparr>"
    by (simp add: b tables_of_def rows_of_def)
  then have "table_names example_result = table_names
          \<lparr>table_names = [''client'', ''file'', ''people'', ''pair'', ''annotation''],
           content = imported example_filename File.id example_args example_fs no_rows\<rparr>"
    and "content example_result = content
          \<lparr>table_names = [''client'', ''file'', ''people'', ''pair'', ''annotation''],
           content = imported example_filename File.id example_args example_fs no_rows\<rparr>"
    by (rule arg_cong)+
  then have 1: "table_names example_result = [''client'', ''file'', ''people'', ''pair'', ''annotation'']"
    and 2: "imported example_filename File.id example_args example_fs no_rows = content example_result"
    by (simp_all only: sqlite.simps)
  from k 2 have 6: "distinct (map File.id (file (content example_result)))"
    by (simp add: b rows_of_def)
  have p: "CHR ''/'' \<notin> set (''Ann'' @ ''0001'') \<and> CHR ''_'' \<notin> set ''0001''"
    by simp
  have i: "(File_init ''Ann'' (Shot_str ''0001''))\<lparr>shot_id := Integer_column (Shot_str ''0001'')\<rparr>
      = \<lparr>File.id = ''Ann_0001'', client_id = ''Ann'', path = ''Ann/Ann_0001'',
           shot_id = Shot_int 1\<rparr>"
    by code_simp
  from t p have "picture_row (''Ann'' @ ''_'' @ ''0001'' @ ''.jpg'')
      = (File_init ''Ann'' (Shot_str ''0001''))\<lparr>shot_id := Integer_column (Shot_str ''0001'')\<rparr>"
    by blast
  then have 7: "picture_row ''Ann_0001.jpg''
        = \<lparr>File.id = ''Ann_0001'', client_id = ''Ann'', path = ''Ann/Ann_0001'',
           shot_id = Shot_int 1\<rparr>"
    by (simp add: i)
  from t example_retouched
  have 3: "create example_filename File.id example_args example_fs_retouched No_directory
        = create example_filename File.id example_args example_fs No_directory"
    by blast
  have 4: "client (content example_result) \<noteq> [] \<and> file (content example_result) \<noteq> []
   \<and> people (content example_result) \<noteq> [] \<and> pair (content example_result) \<noteq> []
   \<and> annotation (content example_result) \<noteq> []"
    by (simp add: example_result_def)
  have 5: "example_fs_retouched ''/lfw/all_images/Ann/Ann_0001.jpg''
        \<noteq> example_fs ''/lfw/all_images/Ann/Ann_0001.jpg''"
    by (simp add: example_fs_retouched_def example_fs_def)
  from 0 example_run 1 2 3 4 5 6 7 show ?thesis by blast
qed

end
